theory Spec2Isabelle
  imports Main "HOL-Library.Word" "HOL-Library.AList" "HOL-Library.Char_ord"
    "HOL-Library.List_Lexorder"
begin

section \<open>Byte strings and JSON documents\<close>

text \<open>
  The chaincode of \<^verbatim>\<open>Inter-Agency-Network/main.go\<close> moves byte strings between
  the transient map, the private data collections and its responses, and reads or
  writes them through \<^verbatim>\<open>encoding/json\<close>. The text layer of that library is not
  part of the chaincode, so a byte string is kept here in one of two forms: \<open>JSON v\<close>
  is the encoding of the document \<open>v\<close> (decoding it gives \<open>v\<close> back), and \<open>Raw s\<close>
  is the byte string \<open>s\<close> itself, which no decoder accepts. What the chaincode
  contributes, the Go struct tags that bind members to fields, is modelled in full.
  \<open>JNumber n\<close> is a number written as the integer \<open>n\<close>, \<open>JFraction\<close> any other
  number (with a fraction or an exponent), which no \<^verbatim>\<open>int\<close> field accepts.
\<close>

datatype jvalue =
    JNull
  | JBool bool
  | JNumber int
  | JFraction
  | JString string
  | JArray "jvalue list"
  | JObject "(string \<times> jvalue) list"

datatype bytes = JSON jvalue | Raw string

text \<open>\<^verbatim>\<open>len(b) == 0\<close>: the encoding of a document is never empty.\<close>

fun is_empty :: "bytes \<Rightarrow> bool" where
  "is_empty (Raw s) = (s = [])"
| "is_empty (JSON v) = False"

text \<open>\<^verbatim>\<open>string(b)\<close>; the text of a document is the encoder's, a parameter.\<close>

fun string_of :: "(jvalue \<Rightarrow> string) \<Rightarrow> bytes \<Rightarrow> string" where
  "string_of text (Raw s) = s"
| "string_of text (JSON v) = text v"

subsection \<open>Decoding into a struct\<close>

text \<open>
  \<^verbatim>\<open>json.Unmarshal\<close> into a struct goes through the members of the object in order.
  A member's key selects the field whose tag equals it, or else the first field whose
  tag has the same folded name; other members are skipped. \<^verbatim>\<open>null\<close> leaves the
  field alone, a value of the field's type is stored (a later member overwrites an
  earlier one), any other value is an error. A \<^verbatim>\<open>null\<close> document is accepted and sets
  nothing; a document that is not an object is an error. Go's \<^verbatim>\<open>int\<close> is taken to
  be 64 bits wide.
\<close>

datatype kind = KString | KInt

text \<open>
  The folded name of a key maps every character to the least one of its class under
  Unicode simple case folding. A string is the UTF-8 byte string: an ASCII letter folds
  to its capital (bit 5 cleared), and two characters beyond ASCII fold into ASCII, the
  long s U+017F (bytes C5 BF) to \<open>S\<close> and the Kelvin sign U+212A (bytes E2 84 AA) to
  \<open>K\<close>. Every other character beyond ASCII folds to a character beyond ASCII and its
  bytes are kept as they are, which decides every comparison with an ASCII name as the
  library does; the tags of this chaincode are ASCII.
\<close>

definition upper :: "char \<Rightarrow> char" where
  "upper c =
     (if CHR ''a'' \<le> c \<and> c \<le> CHR ''z''
      then Char (digit0 c) (digit1 c) (digit2 c) (digit3 c) (digit4 c) False (digit6 c) (digit7 c)
      else c)"

fun foldName :: "string \<Rightarrow> string" where
  "foldName [] = []"
| "foldName [c] = [upper c]"
| "foldName [c1, c2] =
     (if c1 = CHR 0xC5 \<and> c2 = CHR 0xBF then [CHR ''S''] else upper c1 # foldName [c2])"
| "foldName (c1 # c2 # c3 # cs) =
     (if c1 = CHR 0xC5 \<and> c2 = CHR 0xBF then CHR ''S'' # foldName (c3 # cs)
      else if c1 = CHR 0xE2 \<and> c2 = CHR 0x84 \<and> c3 = CHR 0xAA then CHR ''K'' # foldName cs
      else upper c1 # foldName (c2 # c3 # cs))"

definition equalFold :: "string \<Rightarrow> string \<Rightarrow> bool" where
  "equalFold s t = (foldName s = foldName t)"

definition field_for :: "(string \<times> kind) list \<Rightarrow> string \<Rightarrow> (string \<times> kind) option" where
  "field_for fields key =
     (case find (\<lambda>f. fst f = key) fields of
        Some f \<Rightarrow> Some f
      | None \<Rightarrow> find (\<lambda>f. equalFold (fst f) key) fields)"

fun fits :: "kind \<Rightarrow> jvalue \<Rightarrow> bool" where
  "fits KString (JString s) = True"
| "fits KInt (JNumber n) = (- (2 ^ 63) \<le> n \<and> n < 2 ^ 63)"
| "fits k v = False"

fun decode_members ::
  "(string \<times> kind) list \<Rightarrow> (string \<times> jvalue) list \<Rightarrow> (string \<rightharpoonup> jvalue) \<Rightarrow> (string \<rightharpoonup> jvalue) option"
where
  "decode_members fields [] m = Some m"
| "decode_members fields ((key, v) # rest) m =
     (case field_for fields key of
        None \<Rightarrow> decode_members fields rest m
      | Some (tag, k) \<Rightarrow>
          if v = JNull then decode_members fields rest m
          else if fits k v then decode_members fields rest (m(tag \<mapsto> v))
          else None)"

fun Unmarshal :: "(string \<times> kind) list \<Rightarrow> bytes \<Rightarrow> (string \<rightharpoonup> jvalue) option" where
  "Unmarshal fields (Raw s) = None"
| "Unmarshal fields (JSON JNull) = Some Map.empty"
| "Unmarshal fields (JSON (JObject members)) = decode_members fields members Map.empty"
| "Unmarshal fields (JSON v) = None"

text \<open>A field that no member set keeps Go's zero value.\<close>

definition string_field :: "(string \<rightharpoonup> jvalue) \<Rightarrow> string \<Rightarrow> string" where
  "string_field m tag = (case m tag of Some (JString s) \<Rightarrow> s | _ \<Rightarrow> [])"

definition int_field :: "(string \<rightharpoonup> jvalue) \<Rightarrow> string \<Rightarrow> 64 word" where
  "int_field m tag = (case m tag of Some (JNumber n) \<Rightarrow> word_of_int n | _ \<Rightarrow> 0)"

section \<open>The records of the chaincode\<close>

text \<open>
  The transient inputs are local types of \<^verbatim>\<open>initFile\<close>, \<^verbatim>\<open>delete\<close> and
  \<^verbatim>\<open>transferFile\<close>; \<^verbatim>\<open>file\<close> and \<^verbatim>\<open>filePrivateDetails\<close> are what the
  collections store. Each struct comes with its tags, as the source declares them.
\<close>

record fileTransientInput =
  Name :: string
  IPFShash :: string
  Timestamp :: "64 word"
  Owner :: string
  Folio :: "64 word"

record fileDeleteTransientInput =
  Name :: string

record fileTransferTransientInput =
  Name :: string
  Owner :: string

record filePrivateDetails =
  ObjectType :: string
  Name :: string
  Folio :: "64 word"

record "file" =
  ObjectType :: string
  Name :: string
  IPFShash :: string
  Timestamp :: "64 word"
  Owner :: string

definition fileTransientInput_tags :: "(string \<times> kind) list" where
  "fileTransientInput_tags =
     [(''name'', KString), (''ipfshash'', KString), (''size'', KInt), (''owner'', KString),
      (''folio'', KInt)]"

definition Unmarshal_fileTransientInput :: "bytes \<Rightarrow> fileTransientInput option" where
  "Unmarshal_fileTransientInput b =
     map_option
       (\<lambda>m. \<lparr>fileTransientInput.Name = string_field m ''name'',
             IPFShash = string_field m ''ipfshash'',
             Timestamp = int_field m ''size'',
             Owner = string_field m ''owner'',
             Folio = int_field m ''folio''\<rparr>)
       (Unmarshal fileTransientInput_tags b)"

definition Unmarshal_fileDeleteTransientInput :: "bytes \<Rightarrow> fileDeleteTransientInput option" where
  "Unmarshal_fileDeleteTransientInput b =
     map_option (\<lambda>m. \<lparr>fileDeleteTransientInput.Name = string_field m ''name''\<rparr>)
       (Unmarshal [(''name'', KString)] b)"

definition Unmarshal_fileTransferTransientInput ::
  "bytes \<Rightarrow> fileTransferTransientInput option"
where
  "Unmarshal_fileTransferTransientInput b =
     map_option
       (\<lambda>m. \<lparr>fileTransferTransientInput.Name = string_field m ''name'',
             Owner = string_field m ''owner''\<rparr>)
       (Unmarshal [(''name'', KString), (''owner'', KString)] b)"

definition file_tags :: "(string \<times> kind) list" where
  "file_tags =
     [(''docType'', KString), (''name'', KString), (''ipfshash'', KString),
      (''timestamp'', KInt), (''owner'', KString)]"

definition Unmarshal_file :: "bytes \<Rightarrow> file option" where
  "Unmarshal_file b =
     map_option
       (\<lambda>m. \<lparr>ObjectType = string_field m ''docType'',
             Name = string_field m ''name'',
             IPFShash = string_field m ''ipfshash'',
             Timestamp = int_field m ''timestamp'',
             Owner = string_field m ''owner''\<rparr>)
       (Unmarshal file_tags b)"

definition Marshal_file :: "file \<Rightarrow> bytes" where
  "Marshal_file f =
     JSON (JObject
       [(''docType'', JString (ObjectType f)),
        (''name'', JString (Name f)),
        (''ipfshash'', JString (IPFShash f)),
        (''timestamp'', JNumber (sint (Timestamp f))),
        (''owner'', JString (Owner f))])"

definition Marshal_filePrivateDetails :: "filePrivateDetails \<Rightarrow> bytes" where
  "Marshal_filePrivateDetails d =
     JSON (JObject
       [(''docType'', JString (filePrivateDetails.ObjectType d)),
        (''name'', JString (filePrivateDetails.Name d)),
        (''folio'', JNumber (sint (Folio d)))])"

section \<open>The chaincode stub\<close>

text \<open>
  Modelled from the spec: the Ledger Adapter (the Fabric shim behind
  \<^verbatim>\<open>shim.ChaincodeStubInterface\<close>), which the repository imports and does not
  contain. It is an ordered key-value store split into named collections, with get, put
  and delete of one key and a range scan that yields the entries with
  \<open>startKey \<le> key < endKey\<close> in ascending key order. Any call may instead report a
  failure; which calls do is a parameter (\<open>failure\<close>), as are the transient map, the
  composite key codec, the text of a JSON document and the text of the error that
  \<^verbatim>\<open>json.Unmarshal\<close> reports for bytes it rejects. A failed call changes nothing.
  Every call is appended to \<open>calls\<close>, so that "no ledger access" can be stated.
\<close>

datatype call =
    Get string string
  | Put string string bytes
  | Del string string
  | Scan string string string
  | Next string string

record stub =
  GetTransient :: "string + (string \<rightharpoonup> bytes)"
  CreateCompositeKey :: "string \<Rightarrow> string list \<Rightarrow> string + string"
  failure :: "call \<Rightarrow> string option"
  text_of :: "jvalue \<Rightarrow> string"
  decode_error :: "bytes \<Rightarrow> string"

record ledger =
  collections :: "string \<Rightarrow> (string \<times> bytes) list"
  calls :: "call list"

datatype response = Success "bytes option" | Error string

text \<open>
  Modelled from the spec: get of one key of one collection (\<^verbatim>\<open>GetPrivateData\<close> of the
  shim). It returns the stored value, or nothing (Go's \<^verbatim>\<open>nil\<close>) for an absent key.
\<close>

definition GetPrivateData ::
  "stub \<Rightarrow> string \<Rightarrow> string \<Rightarrow> ledger \<Rightarrow> (string + bytes option) \<times> ledger"
where
  "GetPrivateData stub collection key w =
     (case failure stub (Get collection key) of
        Some err \<Rightarrow> (Inl err, w\<lparr>calls := calls w @ [Get collection key]\<rparr>)
      | None \<Rightarrow>
          (Inr (map_of (collections w collection) key),
           w\<lparr>calls := calls w @ [Get collection key]\<rparr>))"

text \<open>
  Modelled from the spec: put of one key of one collection (\<^verbatim>\<open>PutPrivateData\<close> of the
  shim). It reports a failure or stores the value, replacing the one stored before.
\<close>

definition PutPrivateData ::
  "stub \<Rightarrow> string \<Rightarrow> string \<Rightarrow> bytes \<Rightarrow> ledger \<Rightarrow> string option \<times> ledger"
where
  "PutPrivateData stub collection key v w =
     (case failure stub (Put collection key v) of
        Some err \<Rightarrow> (Some err, w\<lparr>calls := calls w @ [Put collection key v]\<rparr>)
      | None \<Rightarrow>
          (None,
           w\<lparr>collections :=
                (collections w)(collection := AList.update key v (collections w collection)),
              calls := calls w @ [Put collection key v]\<rparr>))"

text \<open>
  Modelled from the spec: delete of one key of one collection (\<^verbatim>\<open>DelPrivateData\<close> of
  the shim). Deleting an absent key is not a failure.
\<close>

definition DelPrivateData ::
  "stub \<Rightarrow> string \<Rightarrow> string \<Rightarrow> ledger \<Rightarrow> string option \<times> ledger"
where
  "DelPrivateData stub collection key w =
     (case failure stub (Del collection key) of
        Some err \<Rightarrow> (Some err, w\<lparr>calls := calls w @ [Del collection key]\<rparr>)
      | None \<Rightarrow>
          (None,
           w\<lparr>collections :=
                (collections w)(collection := AList.delete key (collections w collection)),
              calls := calls w @ [Del collection key]\<rparr>))"

text \<open>
  Modelled from the spec: the range iterator of the Ledger Adapter
  (\<^verbatim>\<open>GetPrivateDataByRange\<close> of the shim, not in the repository). It visits the entries
  of the collection with \<open>startKey \<le> key < endKey\<close>, each key once, in ascending order
  of the keys read as byte strings.
\<close>

definition entries_in_range ::
  "(string \<times> bytes) list \<Rightarrow> string \<Rightarrow> string \<Rightarrow> (string \<times> bytes) list"
where
  "entries_in_range al startKey endKey =
     sort_key fst (filter (\<lambda>e. startKey \<le> fst e \<and> fst e < endKey) (AList.clearjunk al))"

text \<open>
  Modelled from the spec: the scan itself. Its iterator is the list of what the
  \<^verbatim>\<open>Next\<close> calls return, each an entry or a failure.
\<close>

definition GetPrivateDataByRange ::
  "stub \<Rightarrow> string \<Rightarrow> string \<Rightarrow> string \<Rightarrow> ledger
    \<Rightarrow> (string + (string + string \<times> bytes) list) \<times> ledger"
where
  "GetPrivateDataByRange stub collection startKey endKey w =
     (case failure stub (Scan collection startKey endKey) of
        Some err \<Rightarrow> (Inl err, w\<lparr>calls := calls w @ [Scan collection startKey endKey]\<rparr>)
      | None \<Rightarrow>
          (Inr (map (\<lambda>e. case failure stub (Next collection (fst e)) of
                           Some err \<Rightarrow> Inl err
                         | None \<Rightarrow> Inr e)
                  (entries_in_range (collections w collection) startKey endKey)),
           w\<lparr>calls := calls w @ [Scan collection startKey endKey]\<rparr>))"

section \<open>The operations\<close>

text \<open>
  Each handler takes the stub, the positional arguments and the ledger, and returns its
  response with the ledger as the calls it made left it. A handler that reads its input
  from the transient map is split as the source's comments split it: the input
  sanitation, which touches no ledger, then the part that reads and writes.
  Logging (\<^verbatim>\<open>fmt.Println\<close>) is left out.
\<close>

subsection \<open>initFile\<close>

definition initFile_input :: "stub \<Rightarrow> string list \<Rightarrow> string + fileTransientInput" where
  "initFile_input stub args =
     (if length args \<noteq> 0
      then Inl ''Incorrect number of arguments. Private file data must be passed in transient map.''
      else case GetTransient stub of
        Inl err \<Rightarrow> Inl (''Error getting transient: '' @ err)
      | Inr transMap \<Rightarrow>
          (case transMap ''file'' of
             None \<Rightarrow> Inl ''file must be a key in the transient map''
           | Some fileJsonBytes \<Rightarrow>
               if is_empty fileJsonBytes
               then Inl ''file value in the transient map must be a non-empty JSON string''
               else case Unmarshal_fileTransientInput fileJsonBytes of
                 None \<Rightarrow>
                   Inl (''Failed to decode JSON of: '' @ string_of (text_of stub) fileJsonBytes)
               | Some fileInput \<Rightarrow>
                   if length (fileTransientInput.Name fileInput) = 0
                   then Inl ''name field must be a non-empty string''
                   else if length (fileTransientInput.IPFShash fileInput) = 0
                   then Inl ''ipfshash field must be a non-empty string''
                   else if sint (fileTransientInput.Timestamp fileInput) \<le> 0
                   then Inl ''size field must be a positive integer''
                   else if length (fileTransientInput.Owner fileInput) = 0
                   then Inl ''owner field must be a non-empty string''
                   else if sint (fileTransientInput.Folio fileInput) \<le> 0
                   then Inl ''folio field must be a positive integer''
                   else Inr fileInput))"

text \<open>
  The third write, of the index entry, is the statement
  \<^verbatim>\<open>stub.PutPrivateData("collectionFiles", ipfshashNameIndexKey, value)\<close>: what the call
  returns is dropped.
\<close>

definition initFile_store :: "stub \<Rightarrow> fileTransientInput \<Rightarrow> ledger \<Rightarrow> response \<times> ledger" where
  "initFile_store stub fileInput w =
     (case GetPrivateData stub ''collectionFiles'' (fileTransientInput.Name fileInput) w of
        (Inl err, w1) \<Rightarrow> (Error (''Failed to get file: '' @ err), w1)
      | (Inr (Some fileAsBytes), w1) \<Rightarrow>
          (Error (''This file already exists: '' @ fileTransientInput.Name fileInput), w1)
      | (Inr None, w1) \<Rightarrow>
          (let file = \<lparr>ObjectType = ''file'',
                       Name = fileTransientInput.Name fileInput,
                       IPFShash = fileTransientInput.IPFShash fileInput,
                       Timestamp = fileTransientInput.Timestamp fileInput,
                       Owner = fileTransientInput.Owner fileInput\<rparr>;
               fileJSONasBytes = Marshal_file file
           in case PutPrivateData stub ''collectionFiles'' (fileTransientInput.Name fileInput)
                     fileJSONasBytes w1 of
             (Some err, w2) \<Rightarrow> (Error err, w2)
           | (None, w2) \<Rightarrow>
               (let filePrivateDetails =
                      \<lparr>filePrivateDetails.ObjectType = ''filePrivateDetails'',
                       Name = fileTransientInput.Name fileInput,
                       Folio = fileTransientInput.Folio fileInput\<rparr>;
                    filePrivateDetailsBytes = Marshal_filePrivateDetails filePrivateDetails
                in case PutPrivateData stub ''collectionFilePrivateDetails''
                          (fileTransientInput.Name fileInput) filePrivateDetailsBytes w2 of
                  (Some err, w3) \<Rightarrow> (Error err, w3)
                | (None, w3) \<Rightarrow>
                    (case CreateCompositeKey stub ''ipfshash~name'' [IPFShash file, Name file] of
                       Inl err \<Rightarrow> (Error err, w3)
                     | Inr ipfshashNameIndexKey \<Rightarrow>
                         (Success None,
                          snd (PutPrivateData stub ''collectionFiles'' ipfshashNameIndexKey
                                 (Raw [CHR 0x00]) w3))))))"

definition initFile :: "stub \<Rightarrow> string list \<Rightarrow> ledger \<Rightarrow> response \<times> ledger" where
  "initFile stub args w =
     (case initFile_input stub args of
        Inl msg \<Rightarrow> (Error msg, w)
      | Inr fileInput \<Rightarrow> initFile_store stub fileInput w)"

subsection \<open>readFile and readFilePrivateDetails\<close>

definition readFile :: "stub \<Rightarrow> string list \<Rightarrow> ledger \<Rightarrow> response \<times> ledger" where
  "readFile stub args w =
     (if length args \<noteq> 1
      then (Error ''Incorrect number of arguments. Expecting name of the file to query'', w)
      else let name = args ! 0
        in case GetPrivateData stub ''collectionFiles'' name w of
          (Inl err, w1) \<Rightarrow>
            (Error (''{\"Error\":\"Failed to get state for '' @ name @ '': '' @ err @ ''\"}''), w1)
        | (Inr None, w1) \<Rightarrow> (Error (''{\"Error\":\"File does not exist: '' @ name @ ''\"}''), w1)
        | (Inr (Some valAsbytes), w1) \<Rightarrow> (Success (Some valAsbytes), w1))"

definition readFilePrivateDetails :: "stub \<Rightarrow> string list \<Rightarrow> ledger \<Rightarrow> response \<times> ledger" where
  "readFilePrivateDetails stub args w =
     (if length args \<noteq> 1
      then (Error ''Incorrect number of arguments. Expecting name of the file to query'', w)
      else let name = args ! 0
        in case GetPrivateData stub ''collectionFilePrivateDetails'' name w of
          (Inl err, w1) \<Rightarrow>
            (Error (''{\"Error\":\"Failed to get private details for '' @ name @ '': '' @ err
                     @ ''\"}''), w1)
        | (Inr None, w1) \<Rightarrow>
            (Error (''{\"Error\":\"File private details does not exist: '' @ name @ ''\"}''), w1)
        | (Inr (Some valAsbytes), w1) \<Rightarrow> (Success (Some valAsbytes), w1))"

subsection \<open>delete\<close>

definition delete_input :: "stub \<Rightarrow> string list \<Rightarrow> string + fileDeleteTransientInput" where
  "delete_input stub args =
     (if length args \<noteq> 0
      then Inl ''Incorrect number of arguments. Private file name must be passed in transient map.''
      else case GetTransient stub of
        Inl err \<Rightarrow> Inl (''Error getting transient: '' @ err)
      | Inr transMap \<Rightarrow>
          (case transMap ''file_delete'' of
             None \<Rightarrow> Inl ''file_delete must be a key in the transient map''
           | Some fileDeleteJsonBytes \<Rightarrow>
               if is_empty fileDeleteJsonBytes
               then Inl ''file_delete value in the transient map must be a non-empty JSON string''
               else case Unmarshal_fileDeleteTransientInput fileDeleteJsonBytes of
                 None \<Rightarrow>
                   Inl (''Failed to decode JSON of: ''
                        @ string_of (text_of stub) fileDeleteJsonBytes)
               | Some fileDeleteInput \<Rightarrow>
                   if length (fileDeleteTransientInput.Name fileDeleteInput) = 0
                   then Inl ''name field must be a non-empty string''
                   else Inr fileDeleteInput))"

definition delete_remove ::
  "stub \<Rightarrow> fileDeleteTransientInput \<Rightarrow> ledger \<Rightarrow> response \<times> ledger"
where
  "delete_remove stub fileDeleteInput w =
     (let name = fileDeleteTransientInput.Name fileDeleteInput
      in case GetPrivateData stub ''collectionFiles'' name w of
        (Inl err, w1) \<Rightarrow> (Error (''Failed to get state for '' @ name), w1)
      | (Inr None, w1) \<Rightarrow> (Error (''File does not exist: '' @ name), w1)
      | (Inr (Some valAsbytes), w1) \<Rightarrow>
          (case Unmarshal_file valAsbytes of
             None \<Rightarrow>
               (Error (''Failed to decode JSON of: '' @ string_of (text_of stub) valAsbytes), w1)
           | Some fileToDelete \<Rightarrow>
               (case DelPrivateData stub ''collectionFiles'' name w1 of
                  (Some err, w2) \<Rightarrow> (Error (''Failed to delete state:'' @ err), w2)
                | (None, w2) \<Rightarrow>
                    (case CreateCompositeKey stub ''ipfshash~name''
                            [IPFShash fileToDelete, Name fileToDelete] of
                       Inl err \<Rightarrow> (Error err, w2)
                     | Inr ipfshashNameIndexKey \<Rightarrow>
                         (case DelPrivateData stub ''collectionFiles'' ipfshashNameIndexKey w2 of
                            (Some err, w3) \<Rightarrow> (Error (''Failed to delete state:'' @ err), w3)
                          | (None, w3) \<Rightarrow>
                              (case DelPrivateData stub ''collectionFilePrivateDetails'' name w3 of
                                 (Some err, w4) \<Rightarrow> (Error err, w4)
                               | (None, w4) \<Rightarrow> (Success None, w4)))))))"

definition delete' :: "stub \<Rightarrow> string list \<Rightarrow> ledger \<Rightarrow> response \<times> ledger" where
  "delete' stub args w =
     (case delete_input stub args of
        Inl msg \<Rightarrow> (Error msg, w)
      | Inr fileDeleteInput \<Rightarrow> delete_remove stub fileDeleteInput w)"

subsection \<open>transferFile\<close>

definition transferFile_input ::
  "stub \<Rightarrow> string list \<Rightarrow> string + fileTransferTransientInput"
where
  "transferFile_input stub args =
     (if length args \<noteq> 0
      then Inl ''Incorrect number of arguments. Private file data must be passed in transient map.''
      else case GetTransient stub of
        Inl err \<Rightarrow> Inl (''Error getting transient: '' @ err)
      | Inr transMap \<Rightarrow>
          (case transMap ''file_owner'' of
             None \<Rightarrow> Inl ''file_owner must be a key in the transient map''
           | Some fileOwnerJsonBytes \<Rightarrow>
               if is_empty fileOwnerJsonBytes
               then Inl ''file_owner value in the transient map must be a non-empty JSON string''
               else case Unmarshal_fileTransferTransientInput fileOwnerJsonBytes of
                 None \<Rightarrow>
                   Inl (''Failed to decode JSON of: ''
                        @ string_of (text_of stub) fileOwnerJsonBytes)
               | Some fileTransferInput \<Rightarrow>
                   if length (fileTransferTransientInput.Name fileTransferInput) = 0
                   then Inl ''name field must be a non-empty string''
                   else if length (fileTransferTransientInput.Owner fileTransferInput) = 0
                   then Inl ''owner field must be a non-empty string''
                   else Inr fileTransferInput))"

definition transferFile_store ::
  "stub \<Rightarrow> fileTransferTransientInput \<Rightarrow> ledger \<Rightarrow> response \<times> ledger"
where
  "transferFile_store stub fileTransferInput w =
     (case GetPrivateData stub ''collectionFiles''
             (fileTransferTransientInput.Name fileTransferInput) w of
        (Inl err, w1) \<Rightarrow> (Error (''Failed to get file:'' @ err), w1)
      | (Inr None, w1) \<Rightarrow>
          (Error (''File does not exist: '' @ fileTransferTransientInput.Name fileTransferInput),
           w1)
      | (Inr (Some fileAsBytes), w1) \<Rightarrow>
          (case Unmarshal_file fileAsBytes of
             None \<Rightarrow> (Error (decode_error stub fileAsBytes), w1)
           | Some fileToTransfer0 \<Rightarrow>
               (let fileToTransfer =
                      fileToTransfer0\<lparr>Owner := fileTransferTransientInput.Owner fileTransferInput\<rparr>;
                    fileJSONasBytes = Marshal_file fileToTransfer
                in case PutPrivateData stub ''collectionFiles'' (Name fileToTransfer)
                          fileJSONasBytes w1 of
                  (Some err, w2) \<Rightarrow> (Error err, w2)
                | (None, w2) \<Rightarrow> (Success None, w2))))"

definition transferFile :: "stub \<Rightarrow> string list \<Rightarrow> ledger \<Rightarrow> response \<times> ledger" where
  "transferFile stub args w =
     (case transferFile_input stub args of
        Inl msg \<Rightarrow> (Error msg, w)
      | Inr fileTransferInput \<Rightarrow> transferFile_store stub fileTransferInput w)"

subsection \<open>getFilesByRange\<close>

text \<open>
  The loop over the iterator: \<open>written\<close> is \<^verbatim>\<open>bArrayMemberAlreadyWritten\<close>,
  \<open>buffer\<close> the bytes written so far. A failing \<^verbatim>\<open>Next\<close> ends the handler.
\<close>

fun writeResults ::
  "(jvalue \<Rightarrow> string) \<Rightarrow> (string + string \<times> bytes) list \<Rightarrow> bool \<Rightarrow> string \<Rightarrow> string + string"
where
  "writeResults text [] written buffer = Inr buffer"
| "writeResults text (Inl err # rest) written buffer = Inl err"
| "writeResults text (Inr queryResponse # rest) written buffer =
     writeResults text rest True
       ((if written then buffer @ '','' else buffer)
        @ ''{\"Key\":\"'' @ fst queryResponse @ ''\", \"Record\":''
        @ string_of text (snd queryResponse) @ ''}'')"

definition getFilesByRange :: "stub \<Rightarrow> string list \<Rightarrow> ledger \<Rightarrow> response \<times> ledger" where
  "getFilesByRange stub args w =
     (if length args < 2
      then (Error ''Incorrect number of arguments. Expecting 2'', w)
      else let startKey = args ! 0; endKey = args ! 1
        in case GetPrivateDataByRange stub ''collectionFiles'' startKey endKey w of
          (Inl err, w1) \<Rightarrow> (Error err, w1)
        | (Inr resultsIterator, w1) \<Rightarrow>
            (case writeResults (text_of stub) resultsIterator False ''['' of
               Inl err \<Rightarrow> (Error err, w1)
             | Inr buffer \<Rightarrow> (Success (Some (Raw (buffer @ '']''))), w1)))"

section \<open>Concrete stubs and ledgers\<close>

text \<open>
  One instance of the parameters, for the concrete runs below: a composite key codec that
  separates its segments by the byte 0 and refuses a segment that contains it, a
  transient map, a choice of the calls that fail, and a fixed text for documents.
\<close>

definition compositeKey :: "string \<Rightarrow> string list \<Rightarrow> string + string" where
  "compositeKey objectType attributes =
     (if CHR 0x00 \<in> set (concat (objectType # attributes))
      then Inl ''input contains unicode U+0000''
      else Inr (CHR 0x00 # objectType @ CHR 0x00
                # concat (map (\<lambda>a. a @ [CHR 0x00]) attributes)))"

definition stub_with :: "(string \<rightharpoonup> bytes) \<Rightarrow> (call \<Rightarrow> string option) \<Rightarrow> stub" where
  "stub_with transMap fails =
     \<lparr>GetTransient = Inr transMap, CreateCompositeKey = compositeKey, failure = fails,
      text_of = (\<lambda>v. ''{...}''), decode_error = (\<lambda>b. ''invalid character'')\<rparr>"

definition no_failure :: "call \<Rightarrow> string option" where
  "no_failure c = None"

definition emptyLedger :: ledger where
  "emptyLedger = \<lparr>collections = (\<lambda>c. []), calls = []\<rparr>"

text \<open>
  The payload of the scenario: name f1, hash abc123, owner orgA, folio 7, and the
  number \<open>n\<close> under the member \<open>key\<close>.
\<close>

definition payload_f1 :: "string \<Rightarrow> int \<Rightarrow> bytes" where
  "payload_f1 key n =
     JSON (JObject
       [(''name'', JString ''f1''), (''ipfshash'', JString ''abc123''), (key, JNumber n),
        (''owner'', JString ''orgA''), (''folio'', JNumber 7)])"

definition create_f1 :: "string \<Rightarrow> int \<Rightarrow> stub" where
  "create_f1 key n = stub_with [''file'' \<mapsto> payload_f1 key n] no_failure"

text \<open>The stub of a create whose write of the index entry the ledger reports failed.\<close>

definition index_write_fails :: "call \<Rightarrow> string option" where
  "index_write_fails c =
     (case c of
        Put collection key v \<Rightarrow> if v = Raw [CHR 0x00] then Some ''write refused'' else None
      | _ \<Rightarrow> None)"

definition create_f1_unindexed :: stub where
  "create_f1_unindexed = stub_with [''file'' \<mapsto> payload_f1 ''size'' 100] index_write_fails"

definition transfer_f1 :: "string \<Rightarrow> stub" where
  "transfer_f1 owner =
     stub_with
       [''file_owner'' \<mapsto> JSON (JObject [(''name'', JString ''f1''), (''owner'', JString owner)])]
       no_failure"


definition file_f1 :: "string \<Rightarrow> file" where
  "file_f1 owner =
     \<lparr>ObjectType = ''file'', Name = ''f1'', IPFShash = ''abc123'', Timestamp = 100,
      Owner = owner\<rparr>"

definition details_f1 :: filePrivateDetails where
  "details_f1 = \<lparr>filePrivateDetails.ObjectType = ''filePrivateDetails'', Name = ''f1'', Folio = 7\<rparr>"

definition index_f1 :: string where
  "index_f1 = CHR 0x00 # ''ipfshash~name'' @ CHR 0x00 # ''abc123'' @ CHR 0x00 # ''f1'' @ [CHR 0x00]"

text \<open>The ledger after f1 was created, as a successful \<open>initFile\<close> leaves the collections.\<close>

definition ledger_f1 :: "string \<Rightarrow> ledger" where
  "ledger_f1 owner =
     \<lparr>collections =
        (\<lambda>c. if c = ''collectionFiles''
             then [(''f1'', Marshal_file (file_f1 owner)), (index_f1, Raw [CHR 0x00])]
             else if c = ''collectionFilePrivateDetails''
             then [(''f1'', Marshal_filePrivateDetails details_f1)]
             else []),
      calls = []\<rparr>"

text \<open>The ledger of f1 after its transfer from orgA to orgB, with the two calls logged.\<close>

definition transferred_f1 :: ledger where
  "transferred_f1 =
     (ledger_f1 ''orgA'')
       \<lparr>collections := (collections (ledger_f1 ''orgA''))
          (''collectionFiles'' :=
             AList.update ''f1'' (Marshal_file ((file_f1 ''orgA'')\<lparr>Owner := ''orgB''\<rparr>))
               (collections (ledger_f1 ''orgA'') ''collectionFiles'')),
        calls := calls (ledger_f1 ''orgA'') @
          [Get ''collectionFiles'' ''f1'',
           Put ''collectionFiles'' ''f1'' (Marshal_file ((file_f1 ''orgA'')\<lparr>Owner := ''orgB''\<rparr>))]\<rparr>"

section \<open>What the spec calls the result of a range scan\<close>

text \<open>
  The spec's words for the result of the scan: the pairs, in iteration order, serialized
  as an array of \<^verbatim>\<open>{Key, Record}\<close> objects. This definition follows the spec; the
  loop \<open>writeResults\<close> follows the source, and \<open>getFilesByRange\<close> is compared with it.
\<close>

definition object_text :: "(jvalue \<Rightarrow> string) \<Rightarrow> string \<times> bytes \<Rightarrow> string" where
  "object_text text e =
     ''{\"Key\":\"'' @ fst e @ ''\", \"Record\":'' @ string_of text (snd e) @ ''}''"

fun comma_separated :: "string list \<Rightarrow> string" where
  "comma_separated [] = []"
| "comma_separated [x] = x"
| "comma_separated (x # y # ys) = x @ '','' @ comma_separated (y # ys)"

definition array_text :: "(jvalue \<Rightarrow> string) \<Rightarrow> (string \<times> bytes) list \<Rightarrow> string" where
  "array_text text es = ''['' @ comma_separated (map (object_text text) es) @ '']''"

section \<open>The records a create builds\<close>

text \<open>
  The two records \<open>initFile\<close> builds from its input, named so that statements can
  refer to them.
\<close>

definition new_file :: "fileTransientInput \<Rightarrow> file" where
  "new_file fileInput =
     \<lparr>ObjectType = ''file'',
      Name = fileTransientInput.Name fileInput,
      IPFShash = fileTransientInput.IPFShash fileInput,
      Timestamp = fileTransientInput.Timestamp fileInput,
      Owner = fileTransientInput.Owner fileInput\<rparr>"

definition new_details :: "fileTransientInput \<Rightarrow> filePrivateDetails" where
  "new_details fileInput =
     \<lparr>filePrivateDetails.ObjectType = ''filePrivateDetails'',
      Name = fileTransientInput.Name fileInput,
      Folio = fileTransientInput.Folio fileInput\<rparr>"

section \<open>The stored record survives its encoding\<close>

text \<open>
  Decoding what \<open>Marshal_file\<close> wrote gives the record back: the tags of \<^verbatim>\<open>file\<close>
  are distinct and every field fits its type.
\<close>

lemma sint64_fits: "fits KInt (JNumber (sint (t :: 64 word)))"
  using sint_ge [of t] sint_lt [of t] by simp

lemma field_for_file_tags:
  "field_for file_tags ''docType'' = Some (''docType'', KString)"
  "field_for file_tags ''name'' = Some (''name'', KString)"
  "field_for file_tags ''ipfshash'' = Some (''ipfshash'', KString)"
  "field_for file_tags ''timestamp'' = Some (''timestamp'', KInt)"
  "field_for file_tags ''owner'' = Some (''owner'', KString)"
  by (simp_all add: field_for_def file_tags_def)

lemma Unmarshal_Marshal_file: "Unmarshal_file (Marshal_file f) = Some f"
  by (cases f)
     (simp add: Unmarshal_file_def Marshal_file_def field_for_file_tags sint64_fits
        string_field_def int_field_def del: fits.simps(2))

lemma Marshal_not_Raw [simp]:
  "Marshal_file f \<noteq> Raw s" "Marshal_filePrivateDetails d \<noteq> Raw s"
  by (simp_all add: Marshal_file_def Marshal_filePrivateDetails_def)

text \<open>
  Members are bound by folded name: a member spelled in capitals, or with the long s for
  an s, is read as \<^verbatim>\<open>size\<close>; a member \<^verbatim>\<open>timestamp\<close> is no field of the input.
\<close>

lemma folded_members_of_size:
  "field_for fileTransientInput_tags ''SIZE'' = Some (''size'', KInt)"
  "field_for fileTransientInput_tags (CHR 0xC5 # CHR 0xBF # ''ize'') = Some (''size'', KInt)"
  "field_for fileTransientInput_tags ''timestamp'' = None"
  "field_for file_tags (''doc'' @ [CHR 0xE2, CHR 0x84, CHR 0xAA] @ ''ype'') = None"
  "field_for file_tags ''DOCTYPE'' = Some (''docType'', KString)"
  by (simp_all add: field_for_def fileTransientInput_tags_def file_tags_def equalFold_def upper_def)

section \<open>What a successful handler did\<close>

lemma GetPrivateData_eq:
  "GetPrivateData stub c k w =
     ((case failure stub (Get c k) of Some err \<Rightarrow> Inl err
       | None \<Rightarrow> Inr (map_of (collections w c) k)),
      w\<lparr>calls := calls w @ [Get c k]\<rparr>)"
  by (simp add: GetPrivateData_def split: option.splits)

lemma PutPrivateData_failed:
  "failure stub (Put c k v) = Some err \<Longrightarrow>
   PutPrivateData stub c k v w = (Some err, w\<lparr>calls := calls w @ [Put c k v]\<rparr>)"
  by (simp add: PutPrivateData_def)

lemma PutPrivateData_done:
  "failure stub (Put c k v) = None \<Longrightarrow>
   PutPrivateData stub c k v w =
     (None, w\<lparr>collections := (collections w)(c := AList.update k v (collections w c)),
              calls := calls w @ [Put c k v]\<rparr>)"
  by (simp add: PutPrivateData_def)

lemma initFile_store_Success:
  assumes "initFile_store stub fi w = (Success r, w')"
  obtains K where
    "r = None"
    "failure stub (Get ''collectionFiles'' (fileTransientInput.Name fi)) = None"
    "map_of (collections w ''collectionFiles'') (fileTransientInput.Name fi) = None"
    "failure stub (Put ''collectionFiles'' (fileTransientInput.Name fi) (Marshal_file (new_file fi))) = None"
    "failure stub (Put ''collectionFilePrivateDetails'' (fileTransientInput.Name fi)
        (Marshal_filePrivateDetails (new_details fi))) = None"
    "CreateCompositeKey stub ''ipfshash~name''
        [fileTransientInput.IPFShash fi, fileTransientInput.Name fi] = Inr K"
    "w' = snd (PutPrivateData stub ''collectionFiles'' K (Raw [CHR 0x00])
           (w\<lparr>collections := (collections w)
                  (''collectionFiles'' := AList.update (fileTransientInput.Name fi)
                       (Marshal_file (new_file fi)) (collections w ''collectionFiles''),
                   ''collectionFilePrivateDetails'' := AList.update (fileTransientInput.Name fi)
                       (Marshal_filePrivateDetails (new_details fi))
                       (collections w ''collectionFilePrivateDetails'')),
                calls := calls w @ [Get ''collectionFiles'' (fileTransientInput.Name fi),
                   Put ''collectionFiles'' (fileTransientInput.Name fi) (Marshal_file (new_file fi)),
                   Put ''collectionFilePrivateDetails'' (fileTransientInput.Name fi)
                     (Marshal_filePrivateDetails (new_details fi))]\<rparr>))"
  using assms
  unfolding initFile_store_def GetPrivateData_eq PutPrivateData_def Let_def new_file_def new_details_def
  by (auto split: option.splits sum.splits prod.splits if_splits)

lemma transferFile_store_Success:
  assumes "transferFile_store stub ti w = (Success r, w')"
  obtains b f where
    "r = None"
    "failure stub (Get ''collectionFiles'' (fileTransferTransientInput.Name ti)) = None"
    "map_of (collections w ''collectionFiles'') (fileTransferTransientInput.Name ti) = Some b"
    "Unmarshal_file b = Some f"
    "failure stub (Put ''collectionFiles'' (Name f)
        (Marshal_file (f\<lparr>Owner := fileTransferTransientInput.Owner ti\<rparr>))) = None"
    "w' = w\<lparr>collections := (collections w)
                (''collectionFiles'' := AList.update (Name f)
                   (Marshal_file (f\<lparr>Owner := fileTransferTransientInput.Owner ti\<rparr>))
                   (collections w ''collectionFiles'')),
             calls := calls w @ [Get ''collectionFiles'' (fileTransferTransientInput.Name ti),
                Put ''collectionFiles'' (Name f)
                  (Marshal_file (f\<lparr>Owner := fileTransferTransientInput.Owner ti\<rparr>))]\<rparr>"
  using assms
  unfolding transferFile_store_def GetPrivateData_eq PutPrivateData_def Let_def
  by (auto split: option.splits sum.splits prod.splits if_splits)

lemma delete_remove_Success:
  assumes "delete_remove stub di w = (Success r, w')"
  obtains b f K where
    "r = None"
    "map_of (collections w ''collectionFiles'') (fileDeleteTransientInput.Name di) = Some b"
    "Unmarshal_file b = Some f"
    "CreateCompositeKey stub ''ipfshash~name'' [IPFShash f, Name f] = Inr K"
    "collections w' = (collections w)
        (''collectionFiles'' :=
           AList.delete K (AList.delete (fileDeleteTransientInput.Name di)
             (collections w ''collectionFiles'')),
         ''collectionFilePrivateDetails'' :=
           AList.delete (fileDeleteTransientInput.Name di)
             (collections w ''collectionFilePrivateDetails''))"
  using assms
  unfolding delete_remove_def GetPrivateData_eq DelPrivateData_def Let_def
  by (auto split: option.splits sum.splits prod.splits if_splits)

lemma collections_after_put:
  "collections (snd (PutPrivateData stub c k v w)) c' =
     (if c' = c \<and> failure stub (Put c k v) = None then AList.update k v (collections w c)
      else collections w c')"
  by (simp add: PutPrivateData_def split: option.splits)

section \<open>Reading after a create or a delete\<close>







section \<open>What a create checks, writes and reports\<close>

text \<open>
  A create that fails its input sanitation answers with that message and makes no ledger
  call. A timestamp that is not positive is answered with the message for \<^verbatim>\<open>size\<close>.
\<close>

lemma input_failure_touches_nothing:
  "initFile_input stub args = Inl msg \<Longrightarrow> initFile stub args w = (Error msg, w)"
  by (simp add: initFile_def)

lemma nonpositive_timestamp_message:
  assumes "GetTransient stub = Inr transMap"
    and "transMap ''file'' = Some fileJsonBytes"
    and "\<not> is_empty fileJsonBytes"
    and "Unmarshal_fileTransientInput fileJsonBytes = Some fileInput"
    and "fileTransientInput.Name fileInput \<noteq> []"
    and "fileTransientInput.IPFShash fileInput \<noteq> []"
    and "sint (fileTransientInput.Timestamp fileInput) \<le> 0"
  shows "initFile stub [] w = (Error ''size field must be a positive integer'', w)"
  using assms by (simp add: initFile_def initFile_input_def)



text \<open>
  A failure of the first or of the second write of a create is what the create answers.
\<close>

lemma failed_record_write_reported:
  assumes "initFile_input stub args = Inr fileInput"
    and "failure stub (Get ''collectionFiles'' (fileTransientInput.Name fileInput)) = None"
    and "map_of (collections w ''collectionFiles'') (fileTransientInput.Name fileInput) = None"
    and "failure stub (Put ''collectionFiles'' (fileTransientInput.Name fileInput)
           (Marshal_file (new_file fileInput))) = Some err"
  shows "fst (initFile stub args w) = Error err"
  using assms
  by (simp add: initFile_def initFile_store_def GetPrivateData_eq PutPrivateData_failed
      new_file_def Let_def)

lemma failed_details_write_reported:
  assumes "initFile_input stub args = Inr fileInput"
    and "failure stub (Get ''collectionFiles'' (fileTransientInput.Name fileInput)) = None"
    and "map_of (collections w ''collectionFiles'') (fileTransientInput.Name fileInput) = None"
    and "failure stub (Put ''collectionFiles'' (fileTransientInput.Name fileInput)
           (Marshal_file (new_file fileInput))) = None"
    and "failure stub (Put ''collectionFilePrivateDetails'' (fileTransientInput.Name fileInput)
           (Marshal_filePrivateDetails (new_details fileInput))) = Some err"
  shows "fst (initFile stub args w) = Error err"
  using assms
  by (simp add: initFile_def initFile_store_def GetPrivateData_eq PutPrivateData_failed
      PutPrivateData_done new_file_def new_details_def Let_def)

text \<open>
  When the ledger accepts the write of the index entry, a successful create leaves the
  entry in the shared collection, and a successful delete removes the entry of the record
  it deleted.
\<close>

lemma index_entry_written:
  assumes "initFile stub args w = (Success r, w')"
    and "initFile_input stub args = Inr fileInput"
    and "CreateCompositeKey stub ''ipfshash~name''
           [fileTransientInput.IPFShash fileInput, fileTransientInput.Name fileInput] = Inr key"
    and "failure stub (Put ''collectionFiles'' key (Raw [CHR 0x00])) = None"
  shows "map_of (collections w' ''collectionFiles'') key = Some (Raw [CHR 0x00])"
proof -
  from assms(1,2) have "initFile_store stub fileInput w = (Success r, w')"
    by (simp add: initFile_def)
  then show ?thesis
    by (rule initFile_store_Success) (use assms(3,4) in \<open>simp add: collections_after_put update_conv'\<close>)
qed

lemma index_entry_removed:
  assumes "delete' stub args w = (Success r, w')"
    and "delete_input stub args = Inr fileDeleteInput"
    and "map_of (collections w ''collectionFiles'') (fileDeleteTransientInput.Name fileDeleteInput)
           = Some valAsbytes"
    and "Unmarshal_file valAsbytes = Some fileToDelete"
    and "CreateCompositeKey stub ''ipfshash~name'' [IPFShash fileToDelete, Name fileToDelete]
           = Inr key"
  shows "map_of (collections w' ''collectionFiles'') key = None"
proof -
  from assms(1,2) have "delete_remove stub fileDeleteInput w = (Success r, w')"
    by (simp add: delete'_def)
  then show ?thesis
    by (rule delete_remove_Success) (use assms(3,4,5) in \<open>simp add: delete_conv'\<close>)
qed

section \<open>A transfer repeated\<close>

lemma transferFile_input_accepted:
  assumes "GetTransient stub = Inr transMap"
    and "transMap ''file_owner'' = Some fileOwnerJsonBytes"
    and "\<not> is_empty fileOwnerJsonBytes"
    and "Unmarshal_fileTransferTransientInput fileOwnerJsonBytes = Some fileTransferInput"
    and "fileTransferTransientInput.Name fileTransferInput \<noteq> []"
    and "fileTransferTransientInput.Owner fileTransferInput \<noteq> []"
  shows "transferFile_input stub [] = Inr fileTransferInput"
  using assms by (simp add: transferFile_input_def)

lemma transferFile_store_run:
  assumes "failure stub (Get ''collectionFiles'' (fileTransferTransientInput.Name ti)) = None"
    and "map_of (collections w ''collectionFiles'') (fileTransferTransientInput.Name ti) = Some b"
    and "Unmarshal_file b = Some f"
    and "failure stub (Put ''collectionFiles'' (Name f)
           (Marshal_file (f\<lparr>Owner := fileTransferTransientInput.Owner ti\<rparr>))) = None"
  shows "transferFile_store stub ti w =
     (Success None,
      w\<lparr>collections := (collections w)
           (''collectionFiles'' := AList.update (Name f)
              (Marshal_file (f\<lparr>Owner := fileTransferTransientInput.Owner ti\<rparr>))
              (collections w ''collectionFiles'')),
        calls := calls w @
          [Get ''collectionFiles'' (fileTransferTransientInput.Name ti),
           Put ''collectionFiles'' (Name f)
             (Marshal_file (f\<lparr>Owner := fileTransferTransientInput.Owner ti\<rparr>))]\<rparr>)"
  using assms
  by (simp add: transferFile_store_def GetPrivateData_eq PutPrivateData_done Let_def)

lemma transferFile_store_on_collections:
  assumes "collections w1 = collections w2"
  shows "fst (transferFile_store stub ti w1) = fst (transferFile_store stub ti w2)
       \<and> collections (snd (transferFile_store stub ti w1)) =
           collections (snd (transferFile_store stub ti w2))"
  using assms
  by (simp add: transferFile_store_def GetPrivateData_eq PutPrivateData_def Let_def
      split: option.splits sum.splits)

lemma transferFile_store_Error:
  assumes "transferFile_store stub ti w = (Error e, w')"
  shows "collections w' = collections w"
  using assms
  by (auto simp: transferFile_store_def GetPrivateData_eq PutPrivateData_def Let_def
      split: option.splits sum.splits)

lemma transferFile_store_again:
  assumes "failure stub (Get ''collectionFiles'' (fileTransferTransientInput.Name ti)) = None"
    and "map_of (collections w ''collectionFiles'') (fileTransferTransientInput.Name ti) = Some b"
    and "Unmarshal_file b = Some f"
    and "failure stub (Put ''collectionFiles'' (Name f)
        (Marshal_file (f\<lparr>Owner := fileTransferTransientInput.Owner ti\<rparr>))) = None"
    and "collections w1 = (collections w)
                (''collectionFiles'' := AList.update (Name f)
                   (Marshal_file (f\<lparr>Owner := fileTransferTransientInput.Owner ti\<rparr>))
                   (collections w ''collectionFiles''))"
  shows "fst (transferFile_store stub ti w1) = Success None
       \<and> collections (snd (transferFile_store stub ti w1)) = collections w1"
proof (cases "Name f = fileTransferTransientInput.Name ti")
  case True
  with assms show ?thesis
    by (simp add: transferFile_store_def GetPrivateData_eq PutPrivateData_def Let_def
        update_conv' Unmarshal_Marshal_file update_last)
next
  case False
  with assms show ?thesis
    by (simp add: transferFile_store_def GetPrivateData_eq PutPrivateData_def Let_def
        update_conv' update_last)
qed

lemma transferFile_store_twice:
  "fst (transferFile_store stub ti (snd (transferFile_store stub ti w))) =
     fst (transferFile_store stub ti w)
   \<and> collections (snd (transferFile_store stub ti (snd (transferFile_store stub ti w)))) =
     collections (snd (transferFile_store stub ti w))"
proof (cases "transferFile_store stub ti w")
  case (Pair r w1)
  show ?thesis
  proof (cases r)
    case (Error e)
    with Pair have "collections w1 = collections w"
      by (simp add: transferFile_store_Error)
    from transferFile_store_on_collections [OF this, of stub ti] Pair
    show ?thesis by simp
  next
    case (Success p)
    with Pair have run: "transferFile_store stub ti w = (Success p, w1)" by simp
    from run obtain b f where
      "p = None"
      "failure stub (Get ''collectionFiles'' (fileTransferTransientInput.Name ti)) = None"
      "map_of (collections w ''collectionFiles'') (fileTransferTransientInput.Name ti) = Some b"
      "Unmarshal_file b = Some f"
      "failure stub (Put ''collectionFiles'' (Name f)
          (Marshal_file (f\<lparr>Owner := fileTransferTransientInput.Owner ti\<rparr>))) = None"
      "w1 = w\<lparr>collections := (collections w)
                (''collectionFiles'' := AList.update (Name f)
                   (Marshal_file (f\<lparr>Owner := fileTransferTransientInput.Owner ti\<rparr>))
                   (collections w ''collectionFiles'')),
             calls := calls w @ [Get ''collectionFiles'' (fileTransferTransientInput.Name ti),
                Put ''collectionFiles'' (Name f)
                  (Marshal_file (f\<lparr>Owner := fileTransferTransientInput.Owner ti\<rparr>))]\<rparr>"
      by (rule transferFile_store_Success)
    then have "fst (transferFile_store stub ti w1) = Success None
       \<and> collections (snd (transferFile_store stub ti w1)) = collections w1"
      by (intro transferFile_store_again [where w = w and b = b and f = f]) simp_all
    with run \<open>p = None\<close> show ?thesis by simp
  qed
qed

text \<open>
  Whatever the payload and the ledger, a transfer run again answers as it did and leaves
  the collections as the first run left them.
\<close>

lemma transfer_repeated_agrees:
  "fst (transferFile stub args (snd (transferFile stub args w))) = fst (transferFile stub args w)
   \<and> collections (snd (transferFile stub args (snd (transferFile stub args w)))) =
       collections (snd (transferFile stub args w))"
proof (cases "transferFile_input stub args")
  case (Inl msg)
  then show ?thesis by (simp add: transferFile_def)
next
  case (Inr ti)
  with transferFile_store_twice [of stub ti w] show ?thesis
    by (simp add: transferFile_def)
qed

section \<open>The range scan\<close>

lemma distinct_keys_sort_key:
  "distinct (map f (sort_key f xs)) = distinct (map f xs)"
  by (simp add: distinct_map)

lemma in_clearjunk_iff: "((k, v) \<in> set (AList.clearjunk al)) = (map_of al k = Some v)"
  using map_of_eq_Some_iff [OF distinct_clearjunk, of al k v] by (simp add: map_of_clearjunk)

lemma set_entries_in_range:
  "set (entries_in_range al startKey endKey) =
     {(k, v). map_of al k = Some v \<and> startKey \<le> k \<and> k < endKey}"
  by (auto simp: entries_in_range_def in_clearjunk_iff)

lemma keys_entries_in_range_ascending:
  "sorted_wrt (<) (map fst (entries_in_range al startKey endKey))"
  unfolding strict_sorted_iff entries_in_range_def
  by (simp add: distinct_keys_sort_key distinct_map_filter distinct_clearjunk)

lemma writeResults_step:
  "writeResults text (Inr e # rest) written buffer =
     writeResults text rest True ((if written then buffer @ '','' else buffer) @ object_text text e)"
  by (simp add: object_text_def)

lemma writeResults_Inr:
  "writeResults text (map Inr es) written buffer =
     Inr (buffer @ (if written \<and> es \<noteq> [] then '','' else [])
          @ comma_separated (map (object_text text) es))"
proof (induction es arbitrary: written buffer)
  case Nil
  then show ?case by simp
next
  case (Cons e es)
  show ?case
  proof (cases es)
    case Nil
    then show ?thesis by (simp add: writeResults_step del: writeResults.simps(3))
  next
    case (Cons e' es')
    have "writeResults text (map Inr (e # es)) written buffer =
            writeResults text (map Inr es) True
              ((if written then buffer @ '','' else buffer) @ object_text text e)"
      by (simp add: writeResults_step del: writeResults.simps(3))
    also have "\<dots> = Inr (((if written then buffer @ '','' else buffer) @ object_text text e)
                       @ '','' @ comma_separated (map (object_text text) es))"
    proof -
      have "es \<noteq> []" using Cons by simp
      then show ?thesis by (simp add: Cons.IH)
    qed
    finally show ?thesis using Cons by simp
  qed
qed

lemma writeResults_all_returned:
  "writeResults text xs written buffer = Inr b \<Longrightarrow> Inl err \<notin> set xs"
proof (induction xs arbitrary: written buffer)
  case Nil
  then show ?case by simp
next
  case (Cons x xs)
  show ?case
  proof (cases x)
    case (Inl e)
    with Cons.prems show ?thesis by simp
  next
    case (Inr e)
    with Cons.prems have
      "writeResults text xs True
         ((if written then buffer @ '','' else buffer) @ object_text text e) = Inr b"
      by (simp add: writeResults_step del: writeResults.simps(3))
    then have "Inl err \<notin> set xs" by (rule Cons.IH)
    with Inr show ?thesis by simp
  qed
qed


lemma iterator_all_returned:
  assumes "\<And>err. Inl err \<notin> set (map (\<lambda>x. case g x of Some err \<Rightarrow> Inl err | None \<Rightarrow> Inr x) es)"
  shows "map (\<lambda>x. case g x of Some err \<Rightarrow> Inl err | None \<Rightarrow> Inr x) es = map Inr es"
proof (rule map_cong [OF refl])
  fix x
  assume x: "x \<in> set es"
  show "(case g x of Some err \<Rightarrow> Inl err | None \<Rightarrow> Inr x) = Inr x"
  proof (cases "g x")
    case None
    then show ?thesis by simp
  next
    case (Some err)
    with x have "Inl err \<in> (\<lambda>x. case g x of Some err \<Rightarrow> Inl err | None \<Rightarrow> Inr x) ` set es"
      by force
    with assms [of err] show ?thesis by simp
  qed
qed

lemma GetPrivateDataByRange_failed:
  "failure stub (Scan c s e) = Some err \<Longrightarrow>
   GetPrivateDataByRange stub c s e w = (Inl err, w\<lparr>calls := calls w @ [Scan c s e]\<rparr>)"
  by (simp add: GetPrivateDataByRange_def)

lemma GetPrivateDataByRange_done:
  "failure stub (Scan c s e) = None \<Longrightarrow>
   GetPrivateDataByRange stub c s e w =
     (Inr (map (\<lambda>e. case failure stub (Next c (fst e)) of
                     Some err \<Rightarrow> Inl err | None \<Rightarrow> Inr e)
            (entries_in_range (collections w c) s e)),
      w\<lparr>calls := calls w @ [Scan c s e]\<rparr>)"
  by (simp add: GetPrivateDataByRange_def)

lemma getFilesByRange_short:
  "length args < 2 \<Longrightarrow>
   getFilesByRange stub args w = (Error ''Incorrect number of arguments. Expecting 2'', w)"
  by (simp add: getFilesByRange_def)

lemma getFilesByRange_run:
  assumes "\<not> length args < 2"
  shows "getFilesByRange stub args w =
       (case GetPrivateDataByRange stub ''collectionFiles'' (args ! 0) (args ! 1) w of
          (Inl err, w1) \<Rightarrow> (Error err, w1)
        | (Inr resultsIterator, w1) \<Rightarrow>
            (case writeResults (text_of stub) resultsIterator False ''['' of
               Inl err \<Rightarrow> (Error err, w1)
             | Inr buffer \<Rightarrow> (Success (Some (Raw (buffer @ '']''))), w1)))"
  using assms by (simp add: getFilesByRange_def Let_def cong: prod.case_cong sum.case_cong)

lemma getFilesByRange_Success:
  assumes "getFilesByRange stub args w = (Success r, w')"
  shows "2 \<le> length args \<and>
    r = Some (Raw (array_text (text_of stub)
             (entries_in_range (collections w ''collectionFiles'') (args ! 0) (args ! 1)))) \<and>
    w' = w\<lparr>calls := calls w @ [Scan ''collectionFiles'' (args ! 0) (args ! 1)]\<rparr>"
proof -
  define s where "s = args ! 0"
  define e where "e = args ! 1"
  let ?es = "entries_in_range (collections w ''collectionFiles'') s e"
  let ?it = "map (\<lambda>x. case failure stub (Next ''collectionFiles'' (fst x)) of
                        Some err \<Rightarrow> Inl err | None \<Rightarrow> Inr x) ?es"
  let ?w1 = "w\<lparr>calls := calls w @ [Scan ''collectionFiles'' s e]\<rparr>"
  have len: "\<not> length args < 2"
  proof
    assume "length args < 2"
    from getFilesByRange_short [OF this, of stub w] assms show False by simp
  qed
  note run = getFilesByRange_run [OF len, of stub w, folded s_def e_def]
  have scan: "failure stub (Scan ''collectionFiles'' s e) = None"
  proof (cases "failure stub (Scan ''collectionFiles'' s e)")
    case None
    then show ?thesis .
  next
    case (Some err)
    from assms show ?thesis
      unfolding run GetPrivateDataByRange_failed [OF Some] by simp
  qed
  have run':
    "(case writeResults (text_of stub) ?it False ''['' of
        Inl err \<Rightarrow> (Error err, ?w1)
      | Inr buffer \<Rightarrow> (Success (Some (Raw (buffer @ '']''))), ?w1)) = (Success r, w')"
    using assms unfolding run GetPrivateDataByRange_done [OF scan] by simp
  then obtain buffer where
    loop: "writeResults (text_of stub) ?it False ''['' = Inr buffer"
    and r: "r = Some (Raw (buffer @ '']''))"
    and w': "w' = ?w1"
    by (cases "writeResults (text_of stub) ?it False ''[''") simp_all
  from loop have "\<And>err. Inl err \<notin> set ?it"
    by (rule writeResults_all_returned)
  then have "?it = map Inr ?es" by (rule iterator_all_returned)
  with loop have "Inr buffer = writeResults (text_of stub) (map Inr ?es) False ''[''"
    by simp
  then have "buffer = ''['' @ comma_separated (map (object_text (text_of stub)) ?es)"
    unfolding writeResults_Inr by simp
  with r have "r = Some (Raw (array_text (text_of stub) ?es))"
    by (simp add: array_text_def)
  with len w' show ?thesis unfolding s_def e_def by simp
qed

text \<open>
  What the guard \<^verbatim>\<open>len(args) < 2\<close> does: fewer than two arguments are refused before
  any ledger call, two or more run as the first two.
\<close>

lemma range_scan_argument_count:
  "(length args < 2 \<longrightarrow>
      getFilesByRange stub args w = (Error ''Incorrect number of arguments. Expecting 2'', w))
   \<and> (2 \<le> length args \<longrightarrow>
      getFilesByRange stub args w = getFilesByRange stub [args ! 0, args ! 1] w)"
  by (simp add: getFilesByRange_short getFilesByRange_run)

lemma range_scan_argument_count_example:
  "length [''a''] < 2
   \<and> getFilesByRange (stub_with Map.empty no_failure) [''a''] emptyLedger
       = (Error ''Incorrect number of arguments. Expecting 2'', emptyLedger)
   \<and> 2 \<le> length [''a'', ''z'', ''extra'']
   \<and> getFilesByRange (stub_with Map.empty no_failure) [''a'', ''z'', ''extra''] emptyLedger
       = getFilesByRange (stub_with Map.empty no_failure) [''a'', ''z''] emptyLedger"
  using range_scan_argument_count [of "[''a'']" "stub_with Map.empty no_failure" emptyLedger]
    range_scan_argument_count [of "[''a'', ''z'', ''extra'']" "stub_with Map.empty no_failure" emptyLedger]
  by simp

section \<open>Concrete runs\<close>

lemma is_empty_payload_f1: "\<not> is_empty (payload_f1 key n)"
  by (simp add: payload_f1_def)

text \<open>
  No field of \<^verbatim>\<open>fileTransientInput\<close> carries the tag \<^verbatim>\<open>timestamp\<close>: the field
  \<^verbatim>\<open>Timestamp\<close> is tagged \<^verbatim>\<open>json:"size"\<close>. A member \<^verbatim>\<open>timestamp\<close> is skipped and
  the field stays 0.
\<close>

lemma decode_payload_timestamp:
  "Unmarshal_fileTransientInput (payload_f1 ''timestamp'' n) =
     Some \<lparr>fileTransientInput.Name = ''f1'', IPFShash = ''abc123'', Timestamp = 0,
           Owner = ''orgA'', Folio = 7\<rparr>"
  by (simp add: Unmarshal_fileTransientInput_def payload_f1_def fileTransientInput_tags_def
      field_for_def equalFold_def upper_def string_field_def int_field_def)

lemma decode_payload_size:
  "- (2 ^ 63) \<le> n \<Longrightarrow> n < 2 ^ 63 \<Longrightarrow>
   Unmarshal_fileTransientInput (payload_f1 ''size'' n) =
     Some \<lparr>fileTransientInput.Name = ''f1'', IPFShash = ''abc123'', Timestamp = word_of_int n,
           Owner = ''orgA'', Folio = 7\<rparr>"
  by (simp add: Unmarshal_fileTransientInput_def payload_f1_def fileTransientInput_tags_def
      field_for_def equalFold_def upper_def string_field_def int_field_def)

lemma input_timestamp:
  "initFile_input (create_f1 ''timestamp'' n) [] = Inl ''size field must be a positive integer''"
  by (simp add: initFile_input_def create_f1_def stub_with_def is_empty_payload_f1
      decode_payload_timestamp)

lemma input_size_0:
  "initFile_input (create_f1 ''size'' 0) [] = Inl ''size field must be a positive integer''"
  by (simp add: initFile_input_def create_f1_def stub_with_def is_empty_payload_f1
      decode_payload_size)

lemma input_size_100:
  "initFile_input (stub_with [''file'' \<mapsto> payload_f1 ''size'' 100] fails) [] =
     Inr \<lparr>fileTransientInput.Name = ''f1'', IPFShash = ''abc123'', Timestamp = 100,
          Owner = ''orgA'', Folio = 7\<rparr>"
  by (simp add: initFile_input_def stub_with_def is_empty_payload_f1 decode_payload_size)

lemma member_timestamp_is_skipped:
  "initFile (create_f1 ''timestamp'' 100) [] emptyLedger =
     (Error ''size field must be a positive integer'', emptyLedger)"
  by (simp add: initFile_def input_timestamp)

lemma compositeKey_f1: "compositeKey ''ipfshash~name'' [''abc123'', ''f1''] = Inr index_f1"
  by (simp add: compositeKey_def index_f1_def)

lemma index_f1_not_f1 [simp]: "index_f1 \<noteq> ''f1''" "''f1'' \<noteq> index_f1"
  by (simp_all add: index_f1_def)

lemma run_unindexed:
  "initFile create_f1_unindexed [] emptyLedger =
     (Success None,
      \<lparr>collections = (\<lambda>c. [])
          (''collectionFiles'' := [(''f1'', Marshal_file (file_f1 ''orgA''))],
           ''collectionFilePrivateDetails'' := [(''f1'', Marshal_filePrivateDetails details_f1)]),
       calls = [Get ''collectionFiles'' ''f1'',
                Put ''collectionFiles'' ''f1'' (Marshal_file (file_f1 ''orgA'')),
                Put ''collectionFilePrivateDetails'' ''f1'' (Marshal_filePrivateDetails details_f1),
                Put ''collectionFiles'' index_f1 (Raw [CHR 0x00])]\<rparr>)"
  unfolding create_f1_unindexed_def initFile_def input_size_100
  by (simp add: initFile_store_def GetPrivateData_def PutPrivateData_def stub_with_def
      index_write_fails_def emptyLedger_def compositeKey_f1 file_f1_def details_f1_def Let_def)

lemma files_ledger_f1:
  "collections (ledger_f1 owner) ''collectionFiles'' =
     [(''f1'', Marshal_file (file_f1 owner)), (index_f1, Raw [CHR 0x00])]"
  "collections (ledger_f1 owner) ''collectionFilePrivateDetails'' =
     [(''f1'', Marshal_filePrivateDetails details_f1)]"
  "calls (ledger_f1 owner) = []"
  by (simp_all add: ledger_f1_def)

lemma run_create:
  "initFile (create_f1 ''size'' 100) [] emptyLedger =
     (Success None,
      \<lparr>collections = (\<lambda>c. [])
          (''collectionFiles'' :=
             [(''f1'', Marshal_file (file_f1 ''orgA'')), (index_f1, Raw [CHR 0x00])],
           ''collectionFilePrivateDetails'' := [(''f1'', Marshal_filePrivateDetails details_f1)]),
       calls = [Get ''collectionFiles'' ''f1'',
                Put ''collectionFiles'' ''f1'' (Marshal_file (file_f1 ''orgA'')),
                Put ''collectionFilePrivateDetails'' ''f1'' (Marshal_filePrivateDetails details_f1),
                Put ''collectionFiles'' index_f1 (Raw [CHR 0x00])]\<rparr>)"
  unfolding create_f1_def initFile_def input_size_100
  by (simp add: initFile_store_def GetPrivateData_def PutPrivateData_def stub_with_def
      no_failure_def emptyLedger_def compositeKey_f1 file_f1_def details_f1_def Let_def)
    (rule ext, simp)




lemma collections_after_create:
  "collections (snd (initFile (create_f1 ''size'' 100) [] emptyLedger)) =
     collections (ledger_f1 ''orgA'')"
  by (rule ext) (simp add: run_create ledger_f1_def)


lemma input_transfer_f1:
  "owner \<noteq> [] \<Longrightarrow>
   transferFile_input (transfer_f1 owner) [] =
     Inr \<lparr>fileTransferTransientInput.Name = ''f1'', Owner = owner\<rparr>"
  by (simp add: transferFile_input_def transfer_f1_def stub_with_def
      Unmarshal_fileTransferTransientInput_def field_for_def string_field_def)

lemma run_transfer:
  "owner \<noteq> [] \<Longrightarrow>
   transferFile (transfer_f1 owner) [] (ledger_f1 old) =
     (Success None,
      (ledger_f1 old)
        \<lparr>collections := (collections (ledger_f1 old))
           (''collectionFiles'' :=
              [(''f1'', Marshal_file (file_f1 owner)), (index_f1, Raw [CHR 0x00])]),
         calls := [Get ''collectionFiles'' ''f1'',
                  Put ''collectionFiles'' ''f1'' (Marshal_file (file_f1 owner))]\<rparr>)"
  by (simp add: transferFile_def input_transfer_f1)
    (simp add: transferFile_store_def GetPrivateData_def PutPrivateData_def
      files_ledger_f1 Unmarshal_Marshal_file transfer_f1_def stub_with_def no_failure_def
      file_f1_def Let_def)

lemma entries_emptyLedger: "entries_in_range [] s e = []"
  by (simp add: entries_in_range_def)

lemma scan_empty:
  "2 \<le> length args \<Longrightarrow>
   getFilesByRange (stub_with transMap no_failure) args emptyLedger =
     (Success (Some (Raw ''[]'')),
      emptyLedger\<lparr>calls := [Scan ''collectionFiles'' (args ! 0) (args ! 1)]\<rparr>)"
  by (simp add: getFilesByRange_run GetPrivateDataByRange_done stub_with_def no_failure_def
      emptyLedger_def entries_emptyLedger)

lemma index_f1_less: "[] \<le> index_f1" "index_f1 < ''z''" "index_f1 < ''f1''" "\<not> ''f1'' < index_f1"
  "\<not> ''f1'' \<le> index_f1"
  by (simp_all add: index_f1_def)

lemma entries_ledger_f1:
  "entries_in_range (collections (ledger_f1 owner) ''collectionFiles'') [] ''z'' =
     [(index_f1, Raw [CHR 0x00]), (''f1'', Marshal_file (file_f1 owner))]"
  by (simp add: files_ledger_f1 entries_in_range_def index_f1_less)

lemma scan_ledger_f1:
  "getFilesByRange (stub_with Map.empty no_failure) ['''', ''z''] (ledger_f1 ''orgA'') =
     (Success (Some (Raw (array_text (\<lambda>v. ''{...}'')
        [(index_f1, Raw [CHR 0x00]), (''f1'', Marshal_file (file_f1 ''orgA''))]))),
      (ledger_f1 ''orgA'')\<lparr>calls := [Scan ''collectionFiles'' [] ''z'']\<rparr>)"
proof -
  have "getFilesByRange (stub_with Map.empty no_failure) ['''', ''z''] (ledger_f1 ''orgA'') =
     (Success (Some (Raw
        (''['' @ comma_separated (map (object_text (\<lambda>v. ''{...}''))
           [(index_f1, Raw [CHR 0x00]), (''f1'', Marshal_file (file_f1 ''orgA''))]) @ '']''))),
      (ledger_f1 ''orgA'')\<lparr>calls := calls (ledger_f1 ''orgA'') @ [Scan ''collectionFiles'' [] ''z'']\<rparr>)"
    apply (simp add: getFilesByRange_run del: writeResults.simps(3))
    apply (simp add: GetPrivateDataByRange_done stub_with_def no_failure_def entries_ledger_f1
        writeResults_step del: writeResults.simps(3))
    done
  then show ?thesis by (simp add: array_text_def ledger_f1_def)
qed

text \<open>
  With the timestamp under the member \<^verbatim>\<open>size\<close> the scenario runs as the spec tells it:
  the create succeeds, the shared record read back carries the timestamp 100 (written
  under the tag \<^verbatim>\<open>timestamp\<close>), and the restricted record carries the folio 7.
\<close>

lemma scenario_with_size_member:
  "fst (initFile (create_f1 ''size'' 100) [] emptyLedger) = Success None
   \<and> fst (readFile (stub_with Map.empty no_failure) [''f1'']
          (snd (initFile (create_f1 ''size'' 100) [] emptyLedger)))
       = Success (Some (Marshal_file (file_f1 ''orgA'')))
   \<and> fst (readFilePrivateDetails (stub_with Map.empty no_failure) [''f1'']
          (snd (initFile (create_f1 ''size'' 100) [] emptyLedger)))
       = Success (Some (Marshal_filePrivateDetails details_f1))"
  by (simp add: run_create readFile_def readFilePrivateDetails_def GetPrivateData_def
      stub_with_def no_failure_def Let_def)

section \<open>The claims\<close>



text \<open>
  C2. A create whose third ledger write, of the index entry, is reported failed by the
  ledger still answers with success: the write was issued (it is the last call), the
  ledger refused it, and the response is \<open>Success\<close>.
\<close>

theorem failed_index_write_reported_as_success:
  "failure create_f1_unindexed (Put ''collectionFiles'' index_f1 (Raw [CHR 0x00]))
     = Some ''write refused''
   \<and> fst (initFile create_f1_unindexed [] emptyLedger) = Success None
   \<and> calls (snd (initFile create_f1_unindexed [] emptyLedger)) =
       [Get ''collectionFiles'' ''f1'',
        Put ''collectionFiles'' ''f1'' (Marshal_file (file_f1 ''orgA'')),
        Put ''collectionFilePrivateDetails'' ''f1'' (Marshal_filePrivateDetails details_f1),
        Put ''collectionFiles'' index_f1 (Raw [CHR 0x00])]"
  by (simp add: run_unindexed) (simp add: create_f1_unindexed_def stub_with_def index_write_fails_def)

text \<open>
  C3. After that successful create the shared collection holds the record of f1 with hash
  abc123 and no entry under the index key of (abc123, f1): index consistency does not
  hold after this successful mutation.
\<close>

theorem created_record_without_index_entry:
  "fst (initFile create_f1_unindexed [] emptyLedger) = Success None
   \<and> CreateCompositeKey create_f1_unindexed ''ipfshash~name'' [''abc123'', ''f1''] = Inr index_f1
   \<and> map_of (collections (snd (initFile create_f1_unindexed [] emptyLedger)) ''collectionFiles'')
        ''f1'' = Some (Marshal_file (file_f1 ''orgA''))
   \<and> map_of (collections (snd (initFile create_f1_unindexed [] emptyLedger)) ''collectionFiles'')
        index_f1 = None"
  by (simp add: run_unindexed) (simp add: create_f1_unindexed_def stub_with_def compositeKey_f1)



text \<open>
  C5. Owner-only mutation. Let a transfer answer success for a name whose shared record
  \<open>f\<close> is stored under its own name. Then the record stored under that name afterwards
  is \<open>f\<close> with the owner replaced by the payload's: it decodes to a record with the same
  kind, name, hash and timestamp. Every other key of the shared collection, the index
  entry among them, and every other collection, the restricted one among them, is as
  before.
\<close>

theorem transfer_changes_owner_only:
  assumes "transferFile stub args w = (Success r, w')"
    and "transferFile_input stub args = Inr fileTransferInput"
    and "map_of (collections w ''collectionFiles'') (fileTransferTransientInput.Name fileTransferInput)
           = Some fileAsBytes"
    and "Unmarshal_file fileAsBytes = Some f"
    and "Name f = fileTransferTransientInput.Name fileTransferInput"
  shows "(\<exists>f'. map_of (collections w' ''collectionFiles'') (Name f) = Some (Marshal_file f')
            \<and> Unmarshal_file (Marshal_file f') = Some f'
            \<and> f' = f\<lparr>Owner := fileTransferTransientInput.Owner fileTransferInput\<rparr>
            \<and> ObjectType f' = ObjectType f \<and> Name f' = Name f \<and> IPFShash f' = IPFShash f
            \<and> Timestamp f' = Timestamp f)
    \<and> (\<forall>key. key \<noteq> Name f \<longrightarrow>
          map_of (collections w' ''collectionFiles'') key = map_of (collections w ''collectionFiles'') key)
    \<and> (\<forall>collection. collection \<noteq> ''collectionFiles'' \<longrightarrow>
          collections w' collection = collections w collection)"
proof -
  from assms(1,2) have "transferFile_store stub fileTransferInput w = (Success r, w')"
    by (simp add: transferFile_def)
  then show ?thesis
  proof (rule transferFile_store_Success)
    fix b g
    assume b: "map_of (collections w ''collectionFiles'')
                 (fileTransferTransientInput.Name fileTransferInput) = Some b"
      and g: "Unmarshal_file b = Some g"
      and w': "w' = w\<lparr>collections := (collections w)
                (''collectionFiles'' := AList.update (Name g)
                   (Marshal_file (g\<lparr>Owner := fileTransferTransientInput.Owner fileTransferInput\<rparr>))
                   (collections w ''collectionFiles'')),
             calls := calls w @
               [Get ''collectionFiles'' (fileTransferTransientInput.Name fileTransferInput),
                Put ''collectionFiles'' (Name g)
                  (Marshal_file (g\<lparr>Owner := fileTransferTransientInput.Owner fileTransferInput\<rparr>))]\<rparr>"
    from b g assms(3,4) have "g = f" by simp
    with w' show ?thesis
      by (simp add: update_conv' Unmarshal_Marshal_file)
  qed
qed

theorem transfer_changes_owner_only_witness:
  "fst (transferFile (transfer_f1 ''orgB'') [] (ledger_f1 ''orgA'')) = Success None
   \<and> transferFile_input (transfer_f1 ''orgB'') [] =
       Inr \<lparr>fileTransferTransientInput.Name = ''f1'', Owner = ''orgB''\<rparr>
   \<and> map_of (collections (ledger_f1 ''orgA'') ''collectionFiles'') ''f1''
       = Some (Marshal_file (file_f1 ''orgA''))
   \<and> Unmarshal_file (Marshal_file (file_f1 ''orgA'')) = Some (file_f1 ''orgA'')
   \<and> Name (file_f1 ''orgA'') = ''f1''
   \<and> map_of (collections (snd (transferFile (transfer_f1 ''orgB'') [] (ledger_f1 ''orgA'')))
         ''collectionFiles'') ''f1'' = Some (Marshal_file (file_f1 ''orgB''))
   \<and> Unmarshal_file (Marshal_file (file_f1 ''orgB'')) = Some (file_f1 ''orgB'')
   \<and> map_of (collections (snd (transferFile (transfer_f1 ''orgB'') [] (ledger_f1 ''orgA'')))
         ''collectionFiles'') index_f1
       = map_of (collections (ledger_f1 ''orgA'') ''collectionFiles'') index_f1
   \<and> collections (snd (transferFile (transfer_f1 ''orgB'') [] (ledger_f1 ''orgA'')))
         ''collectionFilePrivateDetails''
       = collections (ledger_f1 ''orgA'') ''collectionFilePrivateDetails''"
proof -
  let ?ti = "\<lparr>fileTransferTransientInput.Name = ''f1'', Owner = ''orgB''\<rparr>"
  let ?w' = "snd (transferFile (transfer_f1 ''orgB'') [] (ledger_f1 ''orgA''))"
  have run: "transferFile (transfer_f1 ''orgB'') [] (ledger_f1 ''orgA'') = (Success None, ?w')"
    by (simp add: run_transfer)
  have input: "transferFile_input (transfer_f1 ''orgB'') [] = Inr ?ti"
    by (simp add: input_transfer_f1)
  have stored: "map_of (collections (ledger_f1 ''orgA'') ''collectionFiles'')
                  (fileTransferTransientInput.Name ?ti) = Some (Marshal_file (file_f1 ''orgA''))"
    by (simp add: files_ledger_f1)
  have decoded: "Unmarshal_file (Marshal_file (file_f1 ''orgA'')) = Some (file_f1 ''orgA'')"
    by (rule Unmarshal_Marshal_file)
  have name: "Name (file_f1 ''orgA'') = fileTransferTransientInput.Name ?ti"
    by (simp add: file_f1_def)
  have owner: "(file_f1 ''orgA'')\<lparr>Owner := ''orgB''\<rparr> = file_f1 ''orgB''"
    by (simp add: file_f1_def)
  from transfer_changes_owner_only [OF run input stored decoded name]
  have after: "map_of (collections ?w' ''collectionFiles'') ''f1'' = Some (Marshal_file (file_f1 ''orgB''))"
    and index: "map_of (collections ?w' ''collectionFiles'') index_f1
       = map_of (collections (ledger_f1 ''orgA'') ''collectionFiles'') index_f1"
    and details: "collections ?w' ''collectionFilePrivateDetails''
       = collections (ledger_f1 ''orgA'') ''collectionFilePrivateDetails''"
    using owner by (simp_all add: file_f1_def)
  have answered: "fst (transferFile (transfer_f1 ''orgB'') [] (ledger_f1 ''orgA'')) = Success None"
    by (simp add: run_transfer)
  from answered input stored decoded after index details
  show ?thesis by (simp add: file_f1_def Unmarshal_Marshal_file)
qed

text \<open>
  C6. Uniqueness. A create with a valid payload whose name is already a key of the shared
  collection answers that the file already exists; the collections are unchanged and the
  only ledger call made is the get that found the key.
\<close>

theorem create_of_used_name_rejected:
  assumes "initFile_input stub args = Inr fileInput"
    and "map_of (collections w ''collectionFiles'') (fileTransientInput.Name fileInput) = Some v"
    and "failure stub (Get ''collectionFiles'' (fileTransientInput.Name fileInput)) = None"
  shows "initFile stub args w =
           (Error (''This file already exists: '' @ fileTransientInput.Name fileInput),
            w\<lparr>calls := calls w @ [Get ''collectionFiles'' (fileTransientInput.Name fileInput)]\<rparr>)
         \<and> collections (snd (initFile stub args w)) = collections w"
  using assms by (simp add: initFile_def initFile_store_def GetPrivateData_eq)

theorem create_of_used_name_rejected_witness:
  "initFile_input (create_f1 ''size'' 100) [] =
     Inr \<lparr>fileTransientInput.Name = ''f1'', IPFShash = ''abc123'', Timestamp = 100,
          Owner = ''orgA'', Folio = 7\<rparr>
   \<and> map_of (collections (ledger_f1 ''orgB'') ''collectionFiles'') ''f1''
       = Some (Marshal_file (file_f1 ''orgB''))
   \<and> failure (create_f1 ''size'' 100) (Get ''collectionFiles'' ''f1'') = None
   \<and> initFile (create_f1 ''size'' 100) [] (ledger_f1 ''orgB'') =
        (Error ''This file already exists: f1'',
         (ledger_f1 ''orgB'')\<lparr>calls := calls (ledger_f1 ''orgB'') @ [Get ''collectionFiles'' ''f1'']\<rparr>)
   \<and> collections (snd (initFile (create_f1 ''size'' 100) [] (ledger_f1 ''orgB'')))
       = collections (ledger_f1 ''orgB'')"
proof -
  have input: "initFile_input (create_f1 ''size'' 100) [] =
     Inr \<lparr>fileTransientInput.Name = ''f1'', IPFShash = ''abc123'', Timestamp = 100,
          Owner = ''orgA'', Folio = 7\<rparr>"
    by (simp add: create_f1_def input_size_100)
  have present: "map_of (collections (ledger_f1 ''orgB'') ''collectionFiles'')
      (fileTransientInput.Name \<lparr>fileTransientInput.Name = ''f1'', IPFShash = ''abc123'',
         Timestamp = 100, Owner = ''orgA'', Folio = 7\<rparr>) = Some (Marshal_file (file_f1 ''orgB''))"
    by (simp add: files_ledger_f1)
  have quiet: "failure (create_f1 ''size'' 100) (Get ''collectionFiles''
      (fileTransientInput.Name \<lparr>fileTransientInput.Name = ''f1'', IPFShash = ''abc123'',
         Timestamp = 100, Owner = ''orgA'', Folio = 7\<rparr>)) = None"
    by (simp add: create_f1_def stub_with_def no_failure_def)
  from create_of_used_name_rejected [OF input present quiet] input present quiet
  show ?thesis by simp
qed

text \<open>
  C7. A create payload that violates a field rule is refused before any ledger call (the
  ledger is returned as it was, no call logged), with the message of the first violated
  field, which begins with the name of the member that field is read from. For a
  timestamp that is 0 or less (name and hash given) that member is \<^verbatim>\<open>size\<close>, the
  tag of the field \<^verbatim>\<open>Timestamp\<close>.
\<close>

theorem validation_message_names_member:
  assumes "GetTransient stub = Inr transMap"
    and "transMap ''file'' = Some fileJsonBytes"
    and "\<not> is_empty fileJsonBytes"
    and "Unmarshal_fileTransientInput fileJsonBytes = Some fileInput"
  shows "(\<exists>m. Unmarshal fileTransientInput_tags fileJsonBytes = Some m
            \<and> fileTransientInput.Name fileInput = string_field m ''name''
            \<and> fileTransientInput.IPFShash fileInput = string_field m ''ipfshash''
            \<and> fileTransientInput.Timestamp fileInput = int_field m ''size''
            \<and> fileTransientInput.Owner fileInput = string_field m ''owner''
            \<and> fileTransientInput.Folio fileInput = int_field m ''folio'')
    \<and> (fileTransientInput.Name fileInput = []
         \<longrightarrow> initFile stub [] w = (Error (''name'' @ '' field must be a non-empty string''), w))
    \<and> (fileTransientInput.Name fileInput \<noteq> [] \<and> fileTransientInput.IPFShash fileInput = []
         \<longrightarrow> initFile stub [] w = (Error (''ipfshash'' @ '' field must be a non-empty string''), w))
    \<and> (fileTransientInput.Name fileInput \<noteq> [] \<and> fileTransientInput.IPFShash fileInput \<noteq> []
          \<and> sint (fileTransientInput.Timestamp fileInput) \<le> 0
         \<longrightarrow> initFile stub [] w = (Error (''size'' @ '' field must be a positive integer''), w))
    \<and> (fileTransientInput.Name fileInput \<noteq> [] \<and> fileTransientInput.IPFShash fileInput \<noteq> []
          \<and> 0 < sint (fileTransientInput.Timestamp fileInput)
          \<and> fileTransientInput.Owner fileInput = []
         \<longrightarrow> initFile stub [] w = (Error (''owner'' @ '' field must be a non-empty string''), w))
    \<and> (fileTransientInput.Name fileInput \<noteq> [] \<and> fileTransientInput.IPFShash fileInput \<noteq> []
          \<and> 0 < sint (fileTransientInput.Timestamp fileInput)
          \<and> fileTransientInput.Owner fileInput \<noteq> []
          \<and> sint (fileTransientInput.Folio fileInput) \<le> 0
         \<longrightarrow> initFile stub [] w = (Error (''folio'' @ '' field must be a positive integer''), w))"
proof -
  from assms(4) have members:
    "\<exists>m. Unmarshal fileTransientInput_tags fileJsonBytes = Some m
            \<and> fileTransientInput.Name fileInput = string_field m ''name''
            \<and> fileTransientInput.IPFShash fileInput = string_field m ''ipfshash''
            \<and> fileTransientInput.Timestamp fileInput = int_field m ''size''
            \<and> fileTransientInput.Owner fileInput = string_field m ''owner''
            \<and> fileTransientInput.Folio fileInput = int_field m ''folio''"
    by (auto simp: Unmarshal_fileTransientInput_def)
  have checks: "initFile stub [] w =
     (if fileTransientInput.Name fileInput = []
      then (Error ''name field must be a non-empty string'', w)
      else if fileTransientInput.IPFShash fileInput = []
      then (Error ''ipfshash field must be a non-empty string'', w)
      else if sint (fileTransientInput.Timestamp fileInput) \<le> 0
      then (Error ''size field must be a positive integer'', w)
      else if fileTransientInput.Owner fileInput = []
      then (Error ''owner field must be a non-empty string'', w)
      else if sint (fileTransientInput.Folio fileInput) \<le> 0
      then (Error ''folio field must be a positive integer'', w)
      else initFile_store stub fileInput w)"
    using assms by (simp add: initFile_def initFile_input_def)
  show ?thesis
    using members by (simp add: checks)
qed


theorem validation_message_names_member_witness:
  "GetTransient (create_f1 ''size'' 0) = Inr [''file'' \<mapsto> payload_f1 ''size'' 0]
   \<and> [''file'' \<mapsto> payload_f1 ''size'' 0] ''file'' = Some (payload_f1 ''size'' 0)
   \<and> \<not> is_empty (payload_f1 ''size'' 0)
   \<and> Unmarshal_fileTransientInput (payload_f1 ''size'' 0) =
       Some \<lparr>fileTransientInput.Name = ''f1'', IPFShash = ''abc123'', Timestamp = 0,
             Owner = ''orgA'', Folio = 7\<rparr>
   \<and> sint (0 :: 64 word) \<le> 0
   \<and> initFile (create_f1 ''size'' 0) [] emptyLedger =
       (Error ''size field must be a positive integer'', emptyLedger)"
proof -
  let ?fi = "\<lparr>fileTransientInput.Name = ''f1'', IPFShash = ''abc123'', Timestamp = 0,
             Owner = ''orgA'', Folio = 7\<rparr>"
  have h1: "GetTransient (create_f1 ''size'' 0) = Inr [''file'' \<mapsto> payload_f1 ''size'' 0]"
    by (simp add: create_f1_def stub_with_def)
  have h2: "[''file'' \<mapsto> payload_f1 ''size'' 0] ''file'' = Some (payload_f1 ''size'' 0)"
    by simp
  have h3: "\<not> is_empty (payload_f1 ''size'' 0)"
    by (rule is_empty_payload_f1)
  have h4: "Unmarshal_fileTransientInput (payload_f1 ''size'' 0) = Some ?fi"
    using decode_payload_size [of 0] by simp
  have first: "fileTransientInput.Name ?fi \<noteq> [] \<and> fileTransientInput.IPFShash ?fi \<noteq> []
      \<and> sint (fileTransientInput.Timestamp ?fi) \<le> 0"
    by simp
  from validation_message_names_member [OF h1 h2 h3 h4, of emptyLedger] first
  have "initFile (create_f1 ''size'' 0) [] emptyLedger =
       (Error ''size field must be a positive integer'', emptyLedger)"
    by simp
  with h1 h2 h3 h4 show ?thesis by simp
qed

text \<open>
  C8. A range scan called with three positional arguments is not refused: on an empty
  ledger it answers success with the empty array.
\<close>

theorem three_arguments_accepted:
  "length [''a'', ''z'', ''extra''] \<noteq> 2
   \<and> fst (getFilesByRange (stub_with Map.empty no_failure) [''a'', ''z'', ''extra''] emptyLedger)
       = Success (Some (Raw ''[]''))"
  by (simp add: scan_empty)

text \<open>
  C9. A range scan that answers success returns the array text of exactly the entries of
  the shared collection whose key lies in [start key, end key), index entries included,
  each once, in strictly ascending key order, and leaves the collections as they were.
\<close>

theorem range_scan_result:
  assumes "getFilesByRange stub args w = (Success r, w')"
  shows "r = Some (Raw (array_text (text_of stub)
               (entries_in_range (collections w ''collectionFiles'') (args ! 0) (args ! 1))))
    \<and> sorted_wrt (<)
         (map fst (entries_in_range (collections w ''collectionFiles'') (args ! 0) (args ! 1)))
    \<and> set (entries_in_range (collections w ''collectionFiles'') (args ! 0) (args ! 1)) =
         {(k, v). map_of (collections w ''collectionFiles'') k = Some v
                  \<and> args ! 0 \<le> k \<and> k < args ! 1}
    \<and> collections w' = collections w"
  using getFilesByRange_Success [OF assms]
  by (simp add: keys_entries_in_range_ascending set_entries_in_range)

theorem range_scan_result_witness:
  "getFilesByRange (stub_with Map.empty no_failure) ['''', ''z''] (ledger_f1 ''orgA'') =
     (Success (Some (Raw (array_text (\<lambda>v. ''{...}'')
        [(index_f1, Raw [CHR 0x00]), (''f1'', Marshal_file (file_f1 ''orgA''))]))),
      (ledger_f1 ''orgA'')\<lparr>calls := [Scan ''collectionFiles'' [] ''z'']\<rparr>)
   \<and> entries_in_range (collections (ledger_f1 ''orgA'') ''collectionFiles'') [] ''z'' =
       [(index_f1, Raw [CHR 0x00]), (''f1'', Marshal_file (file_f1 ''orgA''))]
   \<and> sorted_wrt (<) [index_f1, ''f1'']
   \<and> set [(index_f1, Raw [CHR 0x00]), (''f1'', Marshal_file (file_f1 ''orgA''))] =
       {(k, v). map_of (collections (ledger_f1 ''orgA'') ''collectionFiles'') k = Some v
                \<and> [] \<le> k \<and> k < ''z''}"
  using range_scan_result [OF scan_ledger_f1] scan_ledger_f1
  by (simp add: entries_ledger_f1)

text \<open>
  C10. Transfer is idempotent. For every asset stored under its name \<open>N\<close> and every
  non-empty owner, when the ledger accepts the get and the put: the transfer answers
  success and leaves the record with the new owner under \<open>N\<close>; run again on that
  ledger it answers success again, writes the identical record under \<open>N\<close>, and
  leaves the ledger as the first run left it, but for the two calls logged.
\<close>

theorem transfer_idempotent:
  assumes "GetTransient stub = Inr transMap"
    and "transMap ''file_owner'' = Some fileOwnerJsonBytes"
    and "\<not> is_empty fileOwnerJsonBytes"
    and "Unmarshal_fileTransferTransientInput fileOwnerJsonBytes = Some fileTransferInput"
    and "fileTransferTransientInput.Name fileTransferInput = N"
    and "fileTransferTransientInput.Owner fileTransferInput = owner"
    and "N \<noteq> []"
    and "owner \<noteq> []"
    and "map_of (collections w ''collectionFiles'') N = Some fileAsBytes"
    and "Unmarshal_file fileAsBytes = Some f"
    and "Name f = N"
    and "failure stub (Get ''collectionFiles'' N) = None"
    and "failure stub (Put ''collectionFiles'' N (Marshal_file (f\<lparr>Owner := owner\<rparr>))) = None"
    and "w1 = w\<lparr>collections := (collections w)
                  (''collectionFiles'' :=
                     AList.update N (Marshal_file (f\<lparr>Owner := owner\<rparr>))
                       (collections w ''collectionFiles'')),
                calls := calls w @
                  [Get ''collectionFiles'' N,
                   Put ''collectionFiles'' N (Marshal_file (f\<lparr>Owner := owner\<rparr>))]\<rparr>"
  shows "transferFile stub [] w = (Success None, w1)
    \<and> transferFile stub [] w1 =
        (Success None,
         w1\<lparr>calls := calls w1 @
               [Get ''collectionFiles'' N,
                Put ''collectionFiles'' N (Marshal_file (f\<lparr>Owner := owner\<rparr>))]\<rparr>)
    \<and> collections (snd (transferFile stub [] w1)) = collections w1
    \<and> map_of (collections w1 ''collectionFiles'') N = Some (Marshal_file (f\<lparr>Owner := owner\<rparr>))"
proof -
  let ?v = "Marshal_file (f\<lparr>Owner := owner\<rparr>)"
  have input: "transferFile_input stub [] = Inr fileTransferInput"
    using transferFile_input_accepted [OF assms(1-4)] assms(5-8) by simp
  have once: "transferFile stub [] w = (Success None, w1)"
    using transferFile_store_run [of stub fileTransferInput w fileAsBytes f] assms(5-14)
    by (simp add: transferFile_def input)
  have stored: "map_of (collections w1 ''collectionFiles'') N = Some ?v"
    using assms(14) by (simp add: update_conv')
  have again: "Unmarshal_file ?v = Some (f\<lparr>Owner := owner\<rparr>)"
    by (rule Unmarshal_Marshal_file)
  have same: "AList.update N ?v (collections w1 ''collectionFiles'') = collections w1 ''collectionFiles''"
    using assms(14) by (simp add: update_last)
  have twice: "transferFile stub [] w1 =
        (Success None,
         w1\<lparr>calls := calls w1 @ [Get ''collectionFiles'' N, Put ''collectionFiles'' N ?v]\<rparr>)"
    using transferFile_store_run [of stub fileTransferInput w1 ?v "f\<lparr>Owner := owner\<rparr>"]
      assms(5-13) stored again same
    by (simp add: transferFile_def input)
  from once twice stored show ?thesis by simp
qed

theorem transfer_idempotent_witness:
  "GetTransient (transfer_f1 ''orgB'') =
     Inr [''file_owner'' \<mapsto> JSON (JObject [(''name'', JString ''f1''), (''owner'', JString ''orgB'')])]
   \<and> Unmarshal_fileTransferTransientInput
        (JSON (JObject [(''name'', JString ''f1''), (''owner'', JString ''orgB'')]))
       = Some \<lparr>fileTransferTransientInput.Name = ''f1'', Owner = ''orgB''\<rparr>
   \<and> map_of (collections (ledger_f1 ''orgA'') ''collectionFiles'') ''f1''
       = Some (Marshal_file (file_f1 ''orgA''))
   \<and> Unmarshal_file (Marshal_file (file_f1 ''orgA'')) = Some (file_f1 ''orgA'')
   \<and> Name (file_f1 ''orgA'') = ''f1''
   \<and> failure (transfer_f1 ''orgB'') (Get ''collectionFiles'' ''f1'') = None
   \<and> failure (transfer_f1 ''orgB'')
        (Put ''collectionFiles'' ''f1'' (Marshal_file (file_f1 ''orgB''))) = None
   \<and> transferFile (transfer_f1 ''orgB'') [] (ledger_f1 ''orgA'') = (Success None, transferred_f1)
   \<and> transferFile (transfer_f1 ''orgB'') [] transferred_f1 =
       (Success None,
        transferred_f1\<lparr>calls := calls transferred_f1 @
          [Get ''collectionFiles'' ''f1'',
           Put ''collectionFiles'' ''f1'' (Marshal_file (file_f1 ''orgB''))]\<rparr>)
   \<and> collections (snd (transferFile (transfer_f1 ''orgB'') [] transferred_f1))
       = collections transferred_f1
   \<and> map_of (collections transferred_f1 ''collectionFiles'') ''f1''
       = Some (Marshal_file (file_f1 ''orgB''))"
proof -
  let ?b = "JSON (JObject [(''name'', JString ''f1''), (''owner'', JString ''orgB'')])"
  let ?ti = "\<lparr>fileTransferTransientInput.Name = ''f1'', Owner = ''orgB''\<rparr>"
  have owner: "(file_f1 ''orgA'')\<lparr>Owner := ''orgB''\<rparr> = file_f1 ''orgB''"
    by (simp add: file_f1_def)
  have h1: "GetTransient (transfer_f1 ''orgB'') = Inr [''file_owner'' \<mapsto> ?b]"
    by (simp add: transfer_f1_def stub_with_def)
  have h2: "[''file_owner'' \<mapsto> ?b] ''file_owner'' = Some ?b" by simp
  have h3: "\<not> is_empty ?b" by simp
  have h4: "Unmarshal_fileTransferTransientInput ?b = Some ?ti"
    by (simp add: Unmarshal_fileTransferTransientInput_def field_for_def string_field_def)
  have h5: "fileTransferTransientInput.Name ?ti = ''f1''"
    and h6: "fileTransferTransientInput.Owner ?ti = ''orgB''"
    and h7: "''f1'' \<noteq> []" and h8: "''orgB'' \<noteq> []"
    by simp_all
  have h9: "map_of (collections (ledger_f1 ''orgA'') ''collectionFiles'') ''f1''
              = Some (Marshal_file (file_f1 ''orgA''))"
    by (simp add: files_ledger_f1)
  have h10: "Unmarshal_file (Marshal_file (file_f1 ''orgA'')) = Some (file_f1 ''orgA'')"
    by (rule Unmarshal_Marshal_file)
  have h11: "Name (file_f1 ''orgA'') = ''f1''" by (simp add: file_f1_def)
  have h12: "failure (transfer_f1 ''orgB'') (Get ''collectionFiles'' ''f1'') = None"
    and h13: "failure (transfer_f1 ''orgB'')
        (Put ''collectionFiles'' ''f1'' (Marshal_file ((file_f1 ''orgA'')\<lparr>Owner := ''orgB''\<rparr>))) = None"
    by (simp_all add: transfer_f1_def stub_with_def no_failure_def)
  note run = transfer_idempotent [OF h1 h2 h3 h4 h5 h6 h7 h8 h9 h10 h11 h12 h13 transferred_f1_def]
  from run h1 h4 h9 h10 h11 h12 h13 show ?thesis
    by (simp add: owner)
qed

end
